theory Spec2Isabelle
  imports Complex_Main
begin

section \<open>JavaScript array primitives used by the provider\<close>

text \<open>
  \<^verbatim>\<open>Array.prototype.indexOf\<close>: the position of the first element equal to the
  argument, or \<open>-1\<close> when there is none.
\<close>

fun indexOf :: "'a list \<Rightarrow> 'a \<Rightarrow> int" where
  "indexOf [] x = -1"
| "indexOf (y # ys) x =
     (if y = x then 0
      else (let i = indexOf ys x in if i = -1 then -1 else i + 1))"

text \<open>
  \<^verbatim>\<open>xs.splice(i, 0, x)\<close> and \<^verbatim>\<open>xs.splice(i, 1)\<close> for an index \<open>0 \<le> i \<le> length xs\<close>
  (the only way the provider calls them).
\<close>

definition splice_insert :: "nat \<Rightarrow> 'a \<Rightarrow> 'a list \<Rightarrow> 'a list" where
  "splice_insert i x xs = take i xs @ x # drop i xs"

definition splice_remove :: "nat \<Rightarrow> 'a list \<Rightarrow> 'a list" where
  "splice_remove i xs = take i xs @ drop (Suc i) xs"

section \<open>Ordering state of the provider: \<^verbatim>\<open>reorderKey\<close>, \<^verbatim>\<open>moveKey\<close>, \<^verbatim>\<open>ensureOrder\<close>\<close>

text \<open>
  \<^verbatim>\<open>reorderKey(order, draggedKey, targetKey?)\<close>. The optional target is an
  \<open>option\<close>; the test \<^verbatim>\<open>!targetKey\<close> holds for \<^verbatim>\<open>undefined\<close> and for the empty string.
\<close>

definition reorderKey :: "string list \<Rightarrow> string \<Rightarrow> string option \<Rightarrow> string list" where
  "reorderKey order draggedKey targetKey =
     (if Some draggedKey = targetKey then order
      else
        (let next = filter (\<lambda>k. k \<noteq> draggedKey) order in
         case targetKey of
           None \<Rightarrow> next @ [draggedKey]
         | Some t \<Rightarrow>
             if t = [] then next @ [draggedKey]
             else
               (let index = indexOf next t in
                if index = -1 then next @ [draggedKey]
                else splice_insert (nat index) draggedKey next)))"

lemma indexOf_lower: "- 1 \<le> indexOf xs x"
  by (induction xs) (auto simp: Let_def)

lemma indexOf_minus_one: "indexOf xs x = -1 \<longleftrightarrow> x \<notin> set xs"
proof (induction xs)
  case Nil
  show ?case by simp
next
  case (Cons y ys)
  have "- 1 \<le> indexOf ys x" by (rule indexOf_lower)
  with Cons show ?case by (auto simp: Let_def)
qed

text \<open>
  \<^verbatim>\<open>moveKey(order, key, delta)\<close> works on a copy of the list. A key that is not
  in the list is appended and the call repeated.
\<close>

function moveKey :: "string list \<Rightarrow> string \<Rightarrow> int \<Rightarrow> string list" where
  "moveKey order key delta =
     (if indexOf order key = -1 then moveKey (order @ [key]) key delta
      else
        (let currentIndex = indexOf order key;
             targetIndex = currentIndex + delta in
         if targetIndex < 0 \<or> targetIndex \<ge> int (length order) then order
         else splice_insert (nat targetIndex) key (splice_remove (nat currentIndex) order)))"
  by pat_completeness auto
termination
  by (relation "measure (\<lambda>(order, key, delta). if key \<in> set order then 0 else 1)")
     (auto simp: indexOf_minus_one)

declare moveKey.simps [simp del]

definition ensureOrder :: "string list \<Rightarrow> string list \<Rightarrow> string list" where
  "ensureOrder existing keys =
     (let normalized = filter (\<lambda>k. k \<in> set keys) existing in
      normalized @ filter (\<lambda>k. k \<notin> set normalized) keys)"

text \<open>The element \<open>x\<close> stands directly before an element \<open>y\<close> somewhere in the list.\<close>

fun directlyPrecedes :: "'a \<Rightarrow> 'a \<Rightarrow> 'a list \<Rightarrow> bool" where
  "directlyPrecedes x y (a # b # rest) = ((a = x \<and> b = y) \<or> directlyPrecedes x y (b # rest))"
| "directlyPrecedes x y [a] = False"
| "directlyPrecedes x y [] = False"

section \<open>Data model (\<^verbatim>\<open>types.ts\<close>)\<close>

datatype SkillMatchStatus = NotInstalled | Matched | Conflict

text \<open>Optional fields (\<^verbatim>\<open>localPath?\<close>, \<^verbatim>\<open>installed?\<close>, \<^verbatim>\<open>matchStatus?\<close>) are options.\<close>

record Skill =
  name :: string
  description :: string
  path :: string
  repoUrl :: string
  localPath :: "string option"
  installed :: "bool option"
  matchStatus :: "SkillMatchStatus option"

record SkillRepo =
  url :: string
  name :: string
  branch :: "string option"
  isPreset :: "bool option"

text \<open>The constant tag \<^verbatim>\<open>type: 'local-group'\<close> is the record type itself.\<close>

record LocalSkillsGroup =
  name :: string
  path :: string
  icon :: string
  exists :: bool
  isActive :: bool

section \<open>The Node.js services the code calls\<close>

text \<open>
  A thrown JavaScript exception is the left summand of a result; \<^verbatim>\<open>try { ... } catch\<close>
  is \<open>try_catch\<close>.
\<close>

datatype exn = FsError | RangeError

definition try_catch :: "exn + 'a \<Rightarrow> (exn \<Rightarrow> exn + 'a) \<Rightarrow> exn + 'a" where
  "try_catch body handler = (case body of Inl e \<Rightarrow> handler e | Inr v \<Rightarrow> Inr v)"

record Dirent =
  name :: string
  isDirectory :: bool

text \<open>
  One snapshot of the file system as the synchronous \<^verbatim>\<open>fs\<close> calls see it, together
  with the digest function of \<^verbatim>\<open>crypto.createHash('md5')\<close>. \<^verbatim>\<open>existsSync\<close> never
  throws; \<^verbatim>\<open>statSync\<close>, \<^verbatim>\<open>readFileSync\<close> and \<^verbatim>\<open>readdirSync\<close> may. The
  modification time \<^verbatim>\<open>mtimeMs\<close> is a finite JavaScript number, compared with
  \<^verbatim>\<open>===\<close> only. File contents and strings are byte lists.
\<close>

record runtime =
  existsSync :: "string \<Rightarrow> bool"
  statSync_mtimeMs :: "string \<Rightarrow> exn + real"
  readFileSync :: "string \<Rightarrow> exn + string"
  readdirSync :: "string \<Rightarrow> exn + Dirent list"
  md5_hex :: "string \<Rightarrow> string"

text \<open>
  \<^verbatim>\<open>path.join\<close> on POSIX for segments that are already normalised: empty segments
  are skipped, the others are joined by a slash, and nothing at all gives \<^verbatim>\<open>'.'\<close>.
\<close>

definition path_join :: "string list \<Rightarrow> string" where
  "path_join segments =
     (case filter (\<lambda>s. s \<noteq> []) segments of
        [] \<Rightarrow> ''.''
      | s # ss \<Rightarrow> foldl (\<lambda>acc x. acc @ ''/'' @ x) s ss)"

definition startsWith :: "string \<Rightarrow> string \<Rightarrow> bool" where
  "startsWith s p = (take (length p) s = p)"

section \<open>Hashing with a cache (\<^verbatim>\<open>utils/skillCompare.ts\<close>)\<close>

definition computeFileHash :: "runtime \<Rightarrow> string \<Rightarrow> exn + string" where
  "computeFileHash rt filePath =
     (case readFileSync rt filePath of
        Inl e \<Rightarrow> Inl e
      | Inr content \<Rightarrow> Inr (md5_hex rt content))"

definition computeSkillHash :: "runtime \<Rightarrow> string \<Rightarrow> exn + string" where
  "computeSkillHash rt dirPath =
     (let skillMdPath = path_join [dirPath, ''SKILL.md''] in
      if \<not> existsSync rt skillMdPath then Inr []
      else computeFileHash rt skillMdPath)"

record hashEntry =
  hash :: string
  mtime :: real

type_synonym hashCache = "string \<rightharpoonup> hashEntry"

text \<open>
  \<^verbatim>\<open>getCachedSkillHash(dirPath)\<close> reads and writes the module's \<^verbatim>\<open>hashCache\<close>:
  the cache is an argument and the updated cache is returned with the digest. Every
  throwing call stands before the only write, so the handler returns the cache as
  it was.
\<close>

definition getCachedSkillHash ::
    "runtime \<Rightarrow> hashCache \<Rightarrow> string \<Rightarrow> exn + (string \<times> hashCache)" where
  "getCachedSkillHash rt cache dirPath =
     (let skillMdPath = path_join [dirPath, ''SKILL.md''] in
      if \<not> existsSync rt skillMdPath then Inr ([], cache)
      else
        try_catch
          (case statSync_mtimeMs rt skillMdPath of
             Inl e \<Rightarrow> Inl e
           | Inr mt \<Rightarrow>
               (case cache dirPath of
                  Some cached \<Rightarrow>
                    if mtime cached = mt then Inr (hash cached, cache)
                    else
                      (case computeSkillHash rt dirPath of
                         Inl e \<Rightarrow> Inl e
                       | Inr h \<Rightarrow> Inr (h, cache(dirPath \<mapsto> \<lparr>hash = h, mtime = mt\<rparr>)))
                | None \<Rightarrow>
                    (case computeSkillHash rt dirPath of
                       Inl e \<Rightarrow> Inl e
                     | Inr h \<Rightarrow> Inr (h, cache(dirPath \<mapsto> \<lparr>hash = h, mtime = mt\<rparr>)))))
          (\<lambda>e. Inr ([], cache)))"

definition clearHashCache :: "hashCache" where
  "clearHashCache = Map.empty"

section \<open>Match status (\<^verbatim>\<open>SkillsProvider\<close>)\<close>

text \<open>
  \<^verbatim>\<open>updateInstalledSkillHashes\<close>: the loop over the directory entries, then the
  method. The argument \<open>dir\<close> is the result of \<^verbatim>\<open>getInstalledSkillsDir()\<close>; the test
  \<^verbatim>\<open>!dir\<close> holds for \<^verbatim>\<open>undefined\<close> and for the empty string. An exception inside
  the \<^verbatim>\<open>try\<close> block leaves the entries set so far.
\<close>

fun updateInstalledSkillHashes_loop ::
    "runtime \<Rightarrow> string \<Rightarrow> Dirent list \<Rightarrow> (string \<rightharpoonup> string) \<Rightarrow> hashCache
       \<Rightarrow> (string \<rightharpoonup> string) \<times> hashCache" where
  "updateInstalledSkillHashes_loop rt dir [] table cache = (table, cache)"
| "updateInstalledSkillHashes_loop rt dir (entry # entries) table cache =
     (if isDirectory entry \<and> \<not> startsWith (Dirent.name entry) ''.'' then
        (let skillDir = path_join [dir, Dirent.name entry] in
         if existsSync rt (path_join [skillDir, ''SKILL.md'']) then
           (case getCachedSkillHash rt cache skillDir of
              Inl e \<Rightarrow> (table, cache)
            | Inr (h, cache') \<Rightarrow>
                updateInstalledSkillHashes_loop rt dir entries
                  (table(Dirent.name entry \<mapsto> h)) cache')
         else updateInstalledSkillHashes_loop rt dir entries table cache)
      else updateInstalledSkillHashes_loop rt dir entries table cache)"

definition updateInstalledSkillHashes ::
    "runtime \<Rightarrow> string option \<Rightarrow> hashCache \<Rightarrow> (string \<rightharpoonup> string) \<times> hashCache" where
  "updateInstalledSkillHashes rt dir cache =
     (case dir of
        None \<Rightarrow> (Map.empty, cache)
      | Some d \<Rightarrow>
          if d = [] \<or> \<not> existsSync rt d then (Map.empty, cache)
          else
            (case readdirSync rt d of
               Inl e \<Rightarrow> (Map.empty, cache)
             | Inr entries \<Rightarrow> updateInstalledSkillHashes_loop rt d entries Map.empty cache))"

text \<open>
  \<^verbatim>\<open>getSkillMatchStatus(skill)\<close>. The test \<^verbatim>\<open>!installedHash\<close> holds when the table
  has no entry and when the entry is the empty string; \<^verbatim>\<open>skill.localPath && ...\<close>
  fails for \<^verbatim>\<open>undefined\<close> and for the empty string.
\<close>

definition getSkillMatchStatus ::
    "runtime \<Rightarrow> (string \<rightharpoonup> string) \<Rightarrow> hashCache \<Rightarrow> Skill
       \<Rightarrow> exn + (SkillMatchStatus \<times> hashCache)" where
  "getSkillMatchStatus rt installedSkillHashes cache skill =
     (case installedSkillHashes (Skill.name skill) of
        None \<Rightarrow> Inr (NotInstalled, cache)
      | Some installedHash \<Rightarrow>
          if installedHash = [] then Inr (NotInstalled, cache)
          else
            (case localPath skill of
               None \<Rightarrow> Inr (NotInstalled, cache)
             | Some lp \<Rightarrow>
                 if lp \<noteq> [] \<and> existsSync rt lp then
                   (case getCachedSkillHash rt cache lp of
                      Inl e \<Rightarrow> Inl e
                    | Inr (repoHash, cache') \<Rightarrow>
                        Inr (if installedHash = repoHash then Matched else Conflict, cache'))
                 else Inr (NotInstalled, cache)))"

section \<open>Target environments (\<^verbatim>\<open>utils/ide.ts\<close>) and candidate directories (\<^verbatim>\<open>utils/skills.ts\<close>)\<close>

datatype IdeType = VSCODE | CURSOR | TRAE | ANTIGRAVITY | QODER | WINDSURF | CODEBUDDY | SKILLS

record IdeConfig =
  ideType :: IdeType
  skillsDir :: string

fun IDE_CONFIGS :: "IdeType \<Rightarrow> IdeConfig" where
  "IDE_CONFIGS SKILLS = \<lparr>ideType = SKILLS, skillsDir = path_join [''.agents'', ''skills'']\<rparr>"
| "IDE_CONFIGS ANTIGRAVITY = \<lparr>ideType = ANTIGRAVITY, skillsDir = path_join [''.agent'', ''skills'']\<rparr>"
| "IDE_CONFIGS CODEBUDDY = \<lparr>ideType = CODEBUDDY, skillsDir = path_join [''.codebuddy'', ''skills'']\<rparr>"
| "IDE_CONFIGS CURSOR = \<lparr>ideType = CURSOR, skillsDir = path_join [''.cursor'', ''skills'']\<rparr>"
| "IDE_CONFIGS QODER = \<lparr>ideType = QODER, skillsDir = path_join [''.qoder'', ''skills'']\<rparr>"
| "IDE_CONFIGS TRAE = \<lparr>ideType = TRAE, skillsDir = path_join [''.trae'', ''skills'']\<rparr>"
| "IDE_CONFIGS VSCODE = \<lparr>ideType = VSCODE, skillsDir = path_join [''.github'', ''skills'']\<rparr>"
| "IDE_CONFIGS WINDSURF = \<lparr>ideType = WINDSURF, skillsDir = path_join [''.windsurf'', ''skills'']\<rparr>"

text \<open>\<^verbatim>\<open>Object.values(IDE_CONFIGS)\<close>: the entries in the order the object literal lists them.\<close>

definition IDE_CONFIGS_values :: "IdeConfig list" where
  "IDE_CONFIGS_values =
     map IDE_CONFIGS [SKILLS, ANTIGRAVITY, CODEBUDDY, CURSOR, QODER, TRAE, VSCODE, WINDSURF]"

definition getProjectSkillsDir :: "string \<Rightarrow> IdeType \<Rightarrow> string" where
  "getProjectSkillsDir workspaceRoot ide = path_join [workspaceRoot, skillsDir (IDE_CONFIGS ide)]"

text \<open>\<^verbatim>\<open>Array.from(new Set(xs))\<close>: the first occurrence of every element, in order.\<close>

fun js_unique :: "'a list \<Rightarrow> 'a list \<Rightarrow> 'a list" where
  "js_unique seen [] = []"
| "js_unique seen (x # xs) =
     (if x \<in> set seen then js_unique seen xs else x # js_unique (x # seen) xs)"

record SkillDirectory =
  path :: string
  displayName :: string
  isProject :: bool
  icon :: string

definition toDisplayPath :: "string \<Rightarrow> string" where
  "toDisplayPath relPath = map (\<lambda>c. if c = CHR 0x5C then CHR ''/'' else c) relPath"

text \<open>\<^verbatim>\<open>getSkillDirectories(workspaceRoot)\<close>; \<open>homedir\<close> is the value of \<^verbatim>\<open>os.homedir()\<close>.\<close>

definition getSkillDirectories :: "string \<Rightarrow> string \<Rightarrow> SkillDirectory list" where
  "getSkillDirectories homedir workspaceRoot =
     (let uniqueProjectSkillDirs = js_unique [] (map skillsDir IDE_CONFIGS_values);
          projectDirs =
            map (\<lambda>relDir.
                   let displayName = toDisplayPath relDir;
                       icon = (if startsWith displayName ''.claude/'' then ''folder''
                               else ''folder-library'')
                   in \<lparr>path = path_join [workspaceRoot, relDir], displayName = displayName,
                        isProject = True, icon = icon\<rparr>)
              uniqueProjectSkillDirs;
          globalDirs =
            [\<lparr>path = path_join [homedir, ''.claude'', ''skills''],
               displayName = ''~/.claude/skills'', isProject = False, icon = ''home''\<rparr>,
             \<lparr>path = path_join [homedir, ''.codex'', ''skills''],
               displayName = ''~/.codex/skills'', isProject = False, icon = ''home''\<rparr>]
      in projectDirs @ globalDirs)"

section \<open>Local directory groups (\<^verbatim>\<open>SkillsProvider.getLocalSkillsGroups\<close>)\<close>

text \<open>The \<^verbatim>\<open>.map\<close> step: one group per candidate directory, probed live.\<close>

definition toLocalSkillsGroup :: "runtime \<Rightarrow> string \<Rightarrow> SkillDirectory \<Rightarrow> LocalSkillsGroup" where
  "toLocalSkillsGroup rt activeProjectSkillsPath dir =
     \<lparr>LocalSkillsGroup.name = displayName dir,
      path = SkillDirectory.path dir,
      icon = SkillDirectory.icon dir,
      exists = existsSync rt (SkillDirectory.path dir),
      isActive = (SkillDirectory.path dir = activeProjectSkillsPath)\<rparr>"

text \<open>The \<^verbatim>\<open>.filter\<close> callback, with its \<^verbatim>\<open>try { ... } catch { return false; }\<close>.\<close>

definition groupIsSurfaced :: "runtime \<Rightarrow> LocalSkillsGroup \<Rightarrow> bool" where
  "groupIsSurfaced rt grp =
     (if isActive grp then True
      else if \<not> exists grp then False
      else
        (case readdirSync rt (LocalSkillsGroup.path grp) of
           Inl e \<Rightarrow> False
         | Inr entries \<Rightarrow>
             list_ex (\<lambda>entry.
                 isDirectory entry \<and>
                 \<not> startsWith (Dirent.name entry) ''.'' \<and>
                 existsSync rt
                   (path_join [LocalSkillsGroup.path grp, Dirent.name entry, ''SKILL.md'']))
               entries))"

text \<open>
  The candidate groups before the filter, and \<^verbatim>\<open>getLocalSkillsGroups()\<close>. \<open>workspaceRoot\<close> is
  the result of \<^verbatim>\<open>getWorkspaceRoot()\<close> and \<open>ide\<close> the result of \<^verbatim>\<open>detectIde\<close>.
\<close>

definition candidateGroups :: "runtime \<Rightarrow> string \<Rightarrow> IdeType \<Rightarrow> string \<Rightarrow> LocalSkillsGroup list" where
  "candidateGroups rt homedir ide workspaceRoot =
     map (toLocalSkillsGroup rt (getProjectSkillsDir workspaceRoot ide))
       (getSkillDirectories homedir workspaceRoot)"

definition getLocalSkillsGroups ::
    "runtime \<Rightarrow> string \<Rightarrow> IdeType \<Rightarrow> string option \<Rightarrow> LocalSkillsGroup list" where
  "getLocalSkillsGroups rt homedir ide workspaceRoot =
     (case workspaceRoot of
        None \<Rightarrow> []
      | Some r \<Rightarrow>
          if r = [] then []
          else filter (groupIsSurfaced rt) (candidateGroups rt homedir ide r))"

section \<open>Repository list (\<^verbatim>\<open>configManager.ts\<close>)\<close>

definition PRESET_REPOS :: "SkillRepo list" where
  "PRESET_REPOS =
     [\<lparr>url = ''https://github.com/anthropics/skills.git'', name = ''anthropics/skills'',
        branch = None, isPreset = Some True\<rparr>,
      \<lparr>url = ''https://github.com/openai/skills.git'', name = ''openai/skills'',
        branch = None, isPreset = Some True\<rparr>,
      \<lparr>url = ''https://github.com/ComposioHQ/awesome-claude-skills.git'', name = ''claude/skills'',
        branch = None, isPreset = Some True\<rparr>,
      \<lparr>url = ''https://github.com/vercel-labs/agent-skills.git'', name = ''vercel/skills'',
        branch = None, isPreset = Some True\<rparr>,
      \<lparr>url = ''https://github.com/skillcreatorai/Ai-Agent-Skills.git'', name = ''creatorai/skills'',
        branch = None, isPreset = Some True\<rparr>,
      \<lparr>url = ''https://github.com/obra/superpowers.git'', name = ''superpowers/skills'',
        branch = None, isPreset = Some True\<rparr>,
      \<lparr>url = ''https://github.com/zxkane/aws-skills.git'', name = ''aws/skills'',
        branch = None, isPreset = Some True\<rparr>,
      \<lparr>url = ''https://github.com/huggingface/skills.git'', name = ''huggingface/skills'',
        branch = None, isPreset = Some True\<rparr>,
      \<lparr>url = ''https://github.com/ameyalambat128/swiftui-skills.git'', name = ''swiftui/skills'',
        branch = None, isPreset = Some True\<rparr>]"

text \<open>
  The stored setting \<^verbatim>\<open>agentskills.repositories\<close> is the argument; an unset setting
  is the empty list (\<^verbatim>\<open>config.get(...) || []\<close>). \<^verbatim>\<open>removeRepo\<close> returns the list it
  writes back with \<^verbatim>\<open>config.update\<close>.
\<close>

definition getRepos :: "SkillRepo list \<Rightarrow> SkillRepo list" where
  "getRepos userRepos =
     PRESET_REPOS @ filter (\<lambda>r. \<not> list_ex (\<lambda>p. url p = url r) PRESET_REPOS) userRepos"

definition removeRepo :: "string \<Rightarrow> SkillRepo list \<Rightarrow> SkillRepo list" where
  "removeRepo u userRepos = filter (\<lambda>r. url r \<noteq> u) (getRepos userRepos)"

section \<open>Repository cache path (\<^verbatim>\<open>services/skillScanner.ts\<close>)\<close>

text \<open>
  \<^verbatim>\<open>Buffer.from(url).toString('base64')\<close>. The argument of \<open>base64\<close> is the
  list of bytes \<^verbatim>\<open>Buffer.from(url)\<close> holds: the UTF-8 encoding of the string, in which
  every unpaired surrogate has become the three bytes of U+FFFD. For a URL of ASCII
  characters these are the characters themselves. The bytes are encoded with the
  standard alphabet and \<^verbatim>\<open>=\<close> padding.
\<close>

definition base64_alphabet :: string where
  "base64_alphabet = ''ABCDEFGHIJKLMNOPQRSTUVWXYZabcdefghijklmnopqrstuvwxyz0123456789+/''"

definition b64 :: "nat \<Rightarrow> char" where
  "b64 n = base64_alphabet ! n"

fun base64 :: "string \<Rightarrow> string" where
  "base64 [] = []"
| "base64 [a] =
     (let x = (of_char a :: nat) in
      [b64 (x div 4), b64 ((x mod 4) * 16), CHR ''='', CHR ''=''])"
| "base64 [a, b] =
     (let x = (of_char a :: nat); y = (of_char b :: nat) in
      [b64 (x div 4), b64 ((x mod 4) * 16 + y div 16), b64 ((y mod 16) * 4), CHR ''=''])"
| "base64 (a # b # c # rest) =
     (let x = (of_char a :: nat); y = (of_char b :: nat); z = (of_char c :: nat) in
      [b64 (x div 4), b64 ((x mod 4) * 16 + y div 16), b64 ((y mod 16) * 4 + z div 64),
       b64 (z mod 64)] @ base64 rest)"

text \<open>The characters the replacement \<^verbatim>\<open>/[^a-zA-Z0-9]/g\<close> keeps.\<close>

definition isAlnum :: "char \<Rightarrow> bool" where
  "isAlnum c =
     (let n = (of_char c :: nat) in
      (48 \<le> n \<and> n \<le> 57) \<or> (65 \<le> n \<and> n \<le> 90) \<or> (97 \<le> n \<and> n \<le> 122))"

text \<open>
  \<open>tmpdir\<close> is the value of \<^verbatim>\<open>os.tmpdir()\<close>; the URL \<open>u\<close> is given by its bytes as
  above.
\<close>

definition CACHE_DIR :: "string \<Rightarrow> string" where
  "CACHE_DIR tmpdir = path_join [tmpdir, ''agentskills-git-cache'']"

definition getRepoCachePath :: "string \<Rightarrow> string \<Rightarrow> string" where
  "getRepoCachePath tmpdir u =
     (let dirName = filter isAlnum (base64 u) in
      path_join [CACHE_DIR tmpdir, dirName])"

section \<open>Selection state (\<^verbatim>\<open>SkillsProvider\<close>)\<close>

text \<open>
  The fields the selection operations read and write. \<^verbatim>\<open>checkedSkills\<close> is a
  JavaScript \<^verbatim>\<open>Set\<close>, kept as the list of its elements in insertion order;
  \<^verbatim>\<open>repoSkillsIndex\<close> is a \<^verbatim>\<open>Map\<close>, kept as the list of its entries in insertion
  order. Firing the change event has no effect on these fields.
\<close>

record SkillsProvider =
  checkedSkills :: "string list"
  skillCache :: "string \<rightharpoonup> Skill"
  installedSkillHashes :: "string \<rightharpoonup> string"
  repoSkillsIndex :: "(string \<times> Skill list) list"
  searchQuery :: string

definition getSkillKey :: "Skill \<Rightarrow> string" where
  "getSkillKey skill = repoUrl skill @ ''::'' @ Skill.name skill"

definition set_add :: "'a \<Rightarrow> 'a list \<Rightarrow> 'a list" where
  "set_add k ks = (if k \<in> set ks then ks else ks @ [k])"

definition set_delete :: "'a \<Rightarrow> 'a list \<Rightarrow> 'a list" where
  "set_delete k ks = filter (\<lambda>x. x \<noteq> k) ks"

definition setChecked :: "SkillsProvider \<Rightarrow> Skill \<Rightarrow> bool \<Rightarrow> SkillsProvider" where
  "setChecked st skill checked =
     (let key = getSkillKey skill in
      if checked then
        st\<lparr>checkedSkills := set_add key (checkedSkills st),
           skillCache := (skillCache st)(key \<mapsto> skill)\<rparr>
      else st\<lparr>checkedSkills := set_delete key (checkedSkills st)\<rparr>)"

definition getCheckedSkills :: "SkillsProvider \<Rightarrow> Skill list" where
  "getCheckedSkills st = List.map_filter (skillCache st) (checkedSkills st)"

text \<open>\<^verbatim>\<open>toLowerCase\<close> on ASCII letters, and \<^verbatim>\<open>String.prototype.includes\<close> (\<open>js_includes\<close>).\<close>

definition toLowerCase :: "string \<Rightarrow> string" where
  "toLowerCase s =
     map (\<lambda>c. let n = (of_char c :: nat) in
               if 65 \<le> n \<and> n \<le> 90 then char_of (n + 32) else c) s"

fun js_includes :: "string \<Rightarrow> string \<Rightarrow> bool" where
  "js_includes [] q = (q = [])"
| "js_includes (c # cs) q = (startsWith (c # cs) q \<or> js_includes cs q)"

definition filterSkills :: "string \<Rightarrow> Skill list \<Rightarrow> Skill list" where
  "filterSkills query skills =
     (if query = [] then skills
      else
        (let q = toLowerCase query in
         filter (\<lambda>s. js_includes (toLowerCase (Skill.name s)) q \<or>
                     js_includes (toLowerCase (description s)) q) skills))"

definition getAllMatchingRepoSkills :: "SkillsProvider \<Rightarrow> Skill list" where
  "getAllMatchingRepoSkills st =
     concat (map (\<lambda>(u, skills). filterSkills (searchQuery st) skills) (repoSkillsIndex st))"

definition checkAllMatchingRepoSkills :: "SkillsProvider \<Rightarrow> SkillsProvider" where
  "checkAllMatchingRepoSkills st =
     foldl (\<lambda>acc skill.
              if matchStatus skill = Some Conflict then acc else setChecked acc skill True)
       st (getAllMatchingRepoSkills st)"

text \<open>
  \<^verbatim>\<open>checkAllSkillsInRepo(repo)\<close>: a skill without a stored status gets it from
  \<^verbatim>\<open>getSkillMatchStatus\<close>, which goes through the hash cache.
\<close>

fun checkAllSkillsInRepo_loop ::
    "runtime \<Rightarrow> Skill list \<Rightarrow> SkillsProvider \<Rightarrow> hashCache \<Rightarrow> exn + (SkillsProvider \<times> hashCache)" where
  "checkAllSkillsInRepo_loop rt [] st cache = Inr (st, cache)"
| "checkAllSkillsInRepo_loop rt (skill # candidates) st cache =
     (case (case matchStatus skill of
              Some status \<Rightarrow> Inr (status, cache)
            | None \<Rightarrow> getSkillMatchStatus rt (installedSkillHashes st) cache skill) of
        Inl e \<Rightarrow> Inl e
      | Inr (status, cache') \<Rightarrow>
          if status = Conflict then checkAllSkillsInRepo_loop rt candidates st cache'
          else checkAllSkillsInRepo_loop rt candidates (setChecked st skill True) cache')"

definition checkAllSkillsInRepo ::
    "runtime \<Rightarrow> SkillsProvider \<Rightarrow> hashCache \<Rightarrow> SkillRepo \<Rightarrow> exn + (SkillsProvider \<times> hashCache)" where
  "checkAllSkillsInRepo rt st cache repo =
     (let skills = (case map_of (repoSkillsIndex st) (url repo) of None \<Rightarrow> [] | Some ss \<Rightarrow> ss);
          candidates = (if searchQuery st \<noteq> [] then filterSkills (searchQuery st) skills
                        else skills)
      in checkAllSkillsInRepo_loop rt candidates st cache)"

section \<open>Single-flight index rebuild (\<^verbatim>\<open>SkillsProvider.buildIndex\<close>)\<close>

text \<open>
  The field \<^verbatim>\<open>indexingPromise\<close> and two observation fields: the number of calls of
  \<^verbatim>\<open>doBuildIndex\<close> so far, and the calls whose promise is still pending. A promise is
  named by the number of the \<^verbatim>\<open>doBuildIndex\<close> call that made it. JavaScript runs each
  call and each callback to completion, so \<^verbatim>\<open>buildIndex\<close> up to its \<^verbatim>\<open>return\<close> is one
  step, and the \<^verbatim>\<open>finally\<close> callback is another, taken when the promise of
  \<^verbatim>\<open>doBuildIndex\<close> settles.
\<close>

record Indexing =
  indexingPromise :: "nat option"
  rebuildsStarted :: nat
  rebuildsRunning :: "nat list"

definition doBuildIndex :: "Indexing \<Rightarrow> nat \<times> Indexing" where
  "doBuildIndex st =
     (let p = rebuildsStarted st in
      (p, st\<lparr>rebuildsStarted := Suc p, rebuildsRunning := rebuildsRunning st @ [p]\<rparr>))"

definition buildIndex :: "Indexing \<Rightarrow> nat \<times> Indexing" where
  "buildIndex st =
     (case indexingPromise st of
        Some p \<Rightarrow> (p, st)
      | None \<Rightarrow>
          (let (p, st1) = doBuildIndex st in
           (p, st1\<lparr>indexingPromise := Some p\<rparr>)))"

definition refresh :: "Indexing \<Rightarrow> Indexing" where
  "refresh st = snd (buildIndex st)"

definition finally_callback :: "Indexing \<Rightarrow> Indexing" where
  "finally_callback st = st\<lparr>indexingPromise := None\<rparr>"

text \<open>Only a pending promise settles; its \<^verbatim>\<open>finally\<close> callback runs then.\<close>

definition settle :: "nat \<Rightarrow> Indexing \<Rightarrow> Indexing" where
  "settle p st =
     (if p \<in> set (rebuildsRunning st)
      then finally_callback (st\<lparr>rebuildsRunning := filter (\<lambda>q. q \<noteq> p) (rebuildsRunning st)\<rparr>)
      else st)"

datatype indexing_event = CallRefresh | CallBuildIndex | Settles nat

fun indexing_step :: "Indexing \<Rightarrow> indexing_event \<Rightarrow> Indexing" where
  "indexing_step st CallRefresh = refresh st"
| "indexing_step st CallBuildIndex = snd (buildIndex st)"
| "indexing_step st (Settles p) = settle p st"

definition initial_indexing :: Indexing where
  "initial_indexing = \<lparr>indexingPromise = None, rebuildsStarted = 0, rebuildsRunning = []\<rparr>"

definition indexing_run :: "indexing_event list \<Rightarrow> Indexing" where
  "indexing_run events = foldl indexing_step initial_indexing events"

section \<open>Bounded fan-out (\<^verbatim>\<open>SkillsProvider.mapWithConcurrency\<close>)\<close>

text \<open>
  A worker is either suspended at \<^verbatim>\<open>await mapper(items[current])\<close> or has returned.
  Between two suspensions a worker runs alone: on resumption it stores the value, takes
  the next index and either suspends again or returns. An empty slot of \<^verbatim>\<open>results\<close>
  is \<open>None\<close>. The mapper is the function from an item to the value its promise
  resolves to.
\<close>

datatype worker = Awaiting nat | Returned

record 'r pool =
  nextIndex :: nat
  results :: "'r option list"
  workers :: "worker list"

text \<open>\<^verbatim>\<open>const current = nextIndex++; if (current >= items.length) return;\<close>\<close>

definition worker_take :: "nat \<Rightarrow> 'r pool \<Rightarrow> worker \<times> 'r pool" where
  "worker_take n st =
     (let current = nextIndex st in
      (if current \<ge> n then Returned else Awaiting current, st\<lparr>nextIndex := Suc current\<rparr>))"

text \<open>\<^verbatim>\<open>new Array(k).fill(0).map(() => worker())\<close>: each worker runs to its first suspension.\<close>

fun spawn :: "nat \<Rightarrow> nat \<Rightarrow> 'r pool \<Rightarrow> 'r pool" where
  "spawn 0 n st = st"
| "spawn (Suc k) n st =
     (let (w, st') = worker_take n st in
      spawn k n (st'\<lparr>workers := workers st' @ [w]\<rparr>))"

text \<open>The promise worker \<open>w\<close> awaits resolves.\<close>

definition resume :: "('t \<Rightarrow> 'r) \<Rightarrow> 't list \<Rightarrow> nat \<Rightarrow> 'r pool \<Rightarrow> 'r pool" where
  "resume mapper items w st =
     (if w < length (workers st) then
        (case workers st ! w of
           Returned \<Rightarrow> st
         | Awaiting current \<Rightarrow>
             (let st1 = st\<lparr>results := (results st)[current := Some (mapper (items ! current))]\<rparr>;
                  (w', st2) = worker_take (length items) st1
              in st2\<lparr>workers := (workers st2)[w := w']\<rparr>))
      else st)"

definition suspended :: "'r pool \<Rightarrow> nat list" where
  "suspended st = filter (\<lambda>w. workers st ! w \<noteq> Returned) [0..<length (workers st)]"

text \<open>
  A schedule is a list of picks; each pick names one of the suspended workers (the
  pick modulo their number), whose promise settles next. Every completion order is
  a schedule.
\<close>

definition pick_step :: "('t \<Rightarrow> 'r) \<Rightarrow> 't list \<Rightarrow> 'r pool \<Rightarrow> nat \<Rightarrow> 'r pool" where
  "pick_step mapper items st pick =
     (let ws = suspended st in
      if ws = [] then st else resume mapper items (ws ! (pick mod length ws)) st)"

datatype 'r outcome = Pending | Rejected exn | Resolved "'r option list"

text \<open>
  \<^verbatim>\<open>mapWithConcurrency(items, concurrency, mapper)\<close> under a schedule. The bound is
  a JavaScript number, here a real (\<^verbatim>\<open>NaN\<close> and the infinities are left out).
  \<^verbatim>\<open>new Array(k)\<close> throws a \<^verbatim>\<open>RangeError\<close> unless \<open>k\<close> is a whole number that is
  not negative; \<open>k\<close> is at most the length of the input, so it is below the largest
  array length. \<^verbatim>\<open>Promise.all\<close> resolves once every worker has returned.
\<close>

definition mapWithConcurrency ::
    "'t list \<Rightarrow> real \<Rightarrow> ('t \<Rightarrow> 'r) \<Rightarrow> nat list \<Rightarrow> 'r outcome" where
  "mapWithConcurrency items concurrency mapper schedule =
     (let n = length items;
          k = min concurrency (real n) in
      if k < 0 \<or> of_int \<lfloor>k\<rfloor> \<noteq> k then Rejected RangeError
      else
        (let st0 = \<lparr>nextIndex = 0, results = replicate n None, workers = []\<rparr>;
             st = foldl (pick_step mapper items) (spawn (nat \<lfloor>k\<rfloor>) n st0) schedule
         in if list_all (\<lambda>w. w = Returned) (workers st) then Resolved (results st)
            else Pending))"

section \<open>Example file systems\<close>

text \<open>
  A runtime built from finite tables: the paths that exist, the modification times, the
  file contents and the directory listings. A path missing from a table makes the call
  throw. The digest function is a stand-in that tags the bytes.
\<close>

definition example_runtime ::
    "string list \<Rightarrow> (string \<times> real) list \<Rightarrow> (string \<times> string) list
       \<Rightarrow> (string \<times> Dirent list) list \<Rightarrow> runtime" where
  "example_runtime present mtimes contents listings =
     \<lparr>existsSync = (\<lambda>p. p \<in> set present),
      statSync_mtimeMs = (\<lambda>p. case map_of mtimes p of None \<Rightarrow> Inl FsError | Some m \<Rightarrow> Inr m),
      readFileSync = (\<lambda>p. case map_of contents p of None \<Rightarrow> Inl FsError | Some b \<Rightarrow> Inr b),
      readdirSync = (\<lambda>p. case map_of listings p of None \<Rightarrow> Inl FsError | Some es \<Rightarrow> Inr es),
      md5_hex = (\<lambda>bytes. ''md5:'' @ bytes)\<rparr>"

text \<open>
  A workspace \<^verbatim>\<open>/ws\<close> in which \<^verbatim>\<open>.cursor/skills\<close> exists and holds one
  subdirectory, \<^verbatim>\<open>.hidden\<close>, with a marker file; nothing else exists.
\<close>

definition hidden_skill_runtime :: runtime where
  "hidden_skill_runtime =
     example_runtime
       [''/ws/.cursor/skills'', ''/ws/.cursor/skills/.hidden'',
        ''/ws/.cursor/skills/.hidden/SKILL.md'']
       [] []
       [(''/ws/.cursor/skills'', [\<lparr>Dirent.name = ''.hidden'', isDirectory = True\<rparr>])]"

section \<open>Invariant of the bulk selection loops\<close>

text \<open>
  Relative to the state \<open>st0\<close> before the loop and the candidate skills: every entry of
  \<^verbatim>\<open>skillCache\<close> is the old one or a candidate that is not in conflict, stored under
  its own key, and every checked key is an old one or the key of such an entry.
\<close>

definition notConflict :: "Skill \<Rightarrow> bool" where
  "notConflict s = (matchStatus s \<noteq> Some Conflict)"

definition selected_from :: "Skill list \<Rightarrow> SkillsProvider \<Rightarrow> string \<Rightarrow> bool" where
  "selected_from candidates acc k =
     (\<exists>s \<in> set candidates. getSkillKey s = k \<and> skillCache acc k = Some s \<and> notConflict s)"

definition selection_inv :: "SkillsProvider \<Rightarrow> Skill list \<Rightarrow> SkillsProvider \<Rightarrow> bool" where
  "selection_inv st0 candidates acc =
     ((\<forall>k. skillCache acc k = skillCache st0 k \<or> selected_from candidates acc k) \<and>
      (\<forall>k. k \<in> set (checkedSkills acc) \<longrightarrow>
           k \<in> set (checkedSkills st0) \<or> selected_from candidates acc k) \<and>
      installedSkillHashes acc = installedSkillHashes st0 \<and>
      repoSkillsIndex acc = repoSkillsIndex st0 \<and>
      searchQuery acc = searchQuery st0)"

text \<open>
  A provider whose index holds one repository with a matched skill and a skill in
  conflict; nothing is checked.
\<close>

definition example_provider :: SkillsProvider where
  "example_provider =
     \<lparr>checkedSkills = [],
      skillCache = Map.empty,
      installedSkillHashes = Map.empty,
      repoSkillsIndex =
        [(''https://example.org/r.git'',
          [\<lparr>Skill.name = ''pdf'', description = ''read pdf files'', path = ''skills/pdf'',
             repoUrl = ''https://example.org/r.git'', localPath = Some ''/cache/r/skills/pdf'',
             installed = Some True, matchStatus = Some Matched\<rparr>,
           \<lparr>Skill.name = ''docx'', description = ''write documents'', path = ''skills/docx'',
             repoUrl = ''https://example.org/r.git'', localPath = Some ''/cache/r/skills/docx'',
             installed = Some False, matchStatus = Some Conflict\<rparr>])],
      searchQuery = []\<rparr>"

section \<open>Invariant of the single-flight guard\<close>

text \<open>The running rebuilds are exactly the one \<^verbatim>\<open>indexingPromise\<close> holds, if any.\<close>

definition single_flight :: "Indexing \<Rightarrow> bool" where
  "single_flight st =
     (rebuildsRunning st = (case indexingPromise st of None \<Rightarrow> [] | Some p \<Rightarrow> [p]))"

section \<open>Invariant of the worker pool\<close>



section \<open>The six-bit groups of a byte string\<close>

text \<open>
  The numbers \<open>base64\<close> looks up in the alphabet, without the padding: what the
  encoding determines about its input.
\<close>

fun sextets :: "string \<Rightarrow> nat list" where
  "sextets [] = []"
| "sextets [a] =
     (let x = (of_char a :: nat) in [x div 4, (x mod 4) * 16])"
| "sextets [a, b] =
     (let x = (of_char a :: nat); y = (of_char b :: nat) in
      [x div 4, (x mod 4) * 16 + y div 16, (y mod 16) * 4])"
| "sextets (a # b # c # rest) =
     (let x = (of_char a :: nat); y = (of_char b :: nat); z = (of_char c :: nat) in
      [x div 4, (x mod 4) * 16 + y div 16, (y mod 16) * 4 + z div 64, z mod 64]
      @ sextets rest)"

definition padding :: "string \<Rightarrow> string" where
  "padding u = replicate ((3 - length u mod 3) mod 3) (CHR ''='')"

text \<open>The encoding of the URL holds neither \<^verbatim>\<open>+\<close> nor \<^verbatim>\<open>/\<close>.\<close>

definition plain_base64 :: "string \<Rightarrow> bool" where
  "plain_base64 u = (CHR ''+'' \<notin> set (base64 u) \<and> CHR ''/'' \<notin> set (base64 u))"

section \<open>Properties of the ordering operations\<close>

lemma indexOf_takeWhile:
  "x \<in> set xs \<Longrightarrow> indexOf xs x = int (length (takeWhile (\<lambda>y. y \<noteq> x) xs))"
proof (induction xs)
  case Nil
  then show ?case by simp
next
  case (Cons y ys)
  show ?case
  proof (cases "y = x")
    case True
    then show ?thesis by simp
  next
    case False
    with Cons.prems have mem: "x \<in> set ys" by simp
    from Cons.IH [OF mem] False show ?thesis by (simp add: Let_def)
  qed
qed

lemma directlyPrecedes_append: "directlyPrecedes x y (pre @ x # y # post)"
proof (induction pre)
  case Nil
  show ?case by simp
next
  case (Cons a pre)
  then show ?case by (cases pre) simp_all
qed

lemma reorderKey_self: "reorderKey order k (Some k) = order"
  by (simp add: reorderKey_def)

lemma reorderKey_before:
  assumes "Y \<in> set order" "X \<noteq> Y" "Y \<noteq> []"
  shows "\<exists>pre post. reorderKey order X (Some Y) = pre @ X # Y # post
           \<and> pre @ Y # post = filter (\<lambda>k. k \<noteq> X) order \<and> Y \<notin> set pre"
proof -
  define nxt where "nxt = filter (\<lambda>k. k \<noteq> X) order"
  from assms have mem: "Y \<in> set nxt" by (simp add: nxt_def)
  then have idx: "indexOf nxt Y = int (length (takeWhile (\<lambda>y. y \<noteq> Y) nxt))"
    by (rule indexOf_takeWhile)
  define pre where "pre = takeWhile (\<lambda>y. y \<noteq> Y) nxt"
  define post where "post = tl (dropWhile (\<lambda>y. y \<noteq> Y) nxt)"
  from mem have dw: "dropWhile (\<lambda>y. y \<noteq> Y) nxt = Y # post"
    unfolding post_def
    by (metis (mono_tags, lifting) dropWhile_eq_Nil_conv hd_dropWhile list.collapse)
  have split: "nxt = pre @ Y # post"
    using takeWhile_dropWhile_id [of "\<lambda>y. y \<noteq> Y" nxt] dw pre_def by simp
  have notin: "Y \<notin> set pre"
    unfolding pre_def by (auto dest: set_takeWhileD)
  have tk: "take (length pre) nxt = pre" and dr: "drop (length pre) nxt = Y # post"
    using split by simp_all
  have "reorderKey order X (Some Y) = pre @ X # Y # post"
    using assms mem idx tk dr
    by (simp add: reorderKey_def Let_def nxt_def [symmetric] pre_def [symmetric]
        indexOf_minus_one splice_insert_def)
  with split notin show ?thesis unfolding nxt_def by metis
qed

lemma moveKey_up_first: "indexOf order key = 0 \<Longrightarrow> moveKey order key (- 1) = order"
  by (subst moveKey.simps) (simp add: Let_def)

lemma moveKey_down_last:
  "key \<in> set order \<Longrightarrow> indexOf order key = int (length order) - 1 \<Longrightarrow> moveKey order key 1 = order"
proof -
  assume mem: "key \<in> set order" and last: "indexOf order key = int (length order) - 1"
  from mem have ne: "order \<noteq> []" by auto
  show ?thesis
    by (subst moveKey.simps) (simp add: Let_def last ne)
qed

lemma reorderKey_no_target:
  "reorderKey order X None = filter (\<lambda>k. k \<noteq> X) order @ [X]"
  by (simp add: reorderKey_def)

lemma reorderKey_empty_target:
  "X \<noteq> [] \<Longrightarrow> reorderKey order X (Some []) = filter (\<lambda>k. k \<noteq> X) order @ [X]"
  by (auto simp: reorderKey_def)

lemma reorderKey_missing_target:
  "X \<noteq> Y \<Longrightarrow> Y \<notin> set order \<Longrightarrow>
     reorderKey order X (Some Y) = filter (\<lambda>k. k \<noteq> X) order @ [X]"
  by (auto simp: reorderKey_def Let_def indexOf_minus_one)

text \<open>
  C5. Dropping a key onto itself leaves the order as it is. For a drop target \<open>Y\<close> that is
  in the list, differs from the dragged key \<open>X\<close> and is not the empty string (no key that
  reaches \<^verbatim>\<open>reorderKey\<close> is: the keys are the URLs and paths of displayed nodes), \<open>X\<close>
  ends up directly before the first \<open>Y\<close> and the other keys keep their order. Moving the
  key at position 0 up, or the key at the last position down, leaves the order as it is.
  Without a target, with the empty string as target, or with a target that is not in
  the list, the dragged key goes to the end.
\<close>

theorem reorder_placement:
  "reorderKey order k (Some k) = order \<and>
   (Y \<in> set order \<and> X \<noteq> Y \<and> Y \<noteq> [] \<longrightarrow>
      directlyPrecedes X Y (reorderKey order X (Some Y)) \<and>
      (\<exists>pre post. reorderKey order X (Some Y) = pre @ X # Y # post \<and>
         pre @ Y # post = filter (\<lambda>k. k \<noteq> X) order \<and> Y \<notin> set pre)) \<and>
   (indexOf order key = 0 \<longrightarrow> moveKey order key (- 1) = order) \<and>
   (key \<in> set order \<and> indexOf order key = int (length order) - 1 \<longrightarrow>
      moveKey order key 1 = order) \<and>
   reorderKey order X None = filter (\<lambda>k. k \<noteq> X) order @ [X] \<and>
   (X \<noteq> [] \<longrightarrow> reorderKey order X (Some []) = filter (\<lambda>k. k \<noteq> X) order @ [X]) \<and>
   (X \<noteq> Y \<and> Y \<notin> set order \<longrightarrow>
      reorderKey order X (Some Y) = filter (\<lambda>k. k \<noteq> X) order @ [X])"
proof (intro conjI impI)
  show "reorderKey order k (Some k) = order" by (rule reorderKey_self)
  show "reorderKey order X None = filter (\<lambda>k. k \<noteq> X) order @ [X]"
    by (rule reorderKey_no_target)
next
  assume h: "Y \<in> set order \<and> X \<noteq> Y \<and> Y \<noteq> []"
  then obtain pre post where r: "reorderKey order X (Some Y) = pre @ X # Y # post"
    and f: "pre @ Y # post = filter (\<lambda>k. k \<noteq> X) order" and n: "Y \<notin> set pre"
    using reorderKey_before [of Y order X] by blast
  from r show "directlyPrecedes X Y (reorderKey order X (Some Y))"
    by (simp add: directlyPrecedes_append)
  from r f n show "\<exists>pre post. reorderKey order X (Some Y) = pre @ X # Y # post \<and>
         pre @ Y # post = filter (\<lambda>k. k \<noteq> X) order \<and> Y \<notin> set pre"
    by blast
next
  assume "indexOf order key = 0"
  then show "moveKey order key (- 1) = order" by (rule moveKey_up_first)
next
  assume "key \<in> set order \<and> indexOf order key = int (length order) - 1"
  then show "moveKey order key 1 = order" by (simp add: moveKey_down_last)
next
  assume "X \<noteq> []"
  then show "reorderKey order X (Some []) = filter (\<lambda>k. k \<noteq> X) order @ [X]"
    by (rule reorderKey_empty_target)
next
  assume "X \<noteq> Y \<and> Y \<notin> set order"
  then show "reorderKey order X (Some Y) = filter (\<lambda>k. k \<noteq> X) order @ [X]"
    by (simp add: reorderKey_missing_target)
qed

theorem reorder_placement_witness:
  "''b'' \<in> set [''a'', ''b'', ''c''] \<and> ''c'' \<noteq> ''b'' \<and> ''b'' \<noteq> [] \<and>
   directlyPrecedes ''c'' ''b'' (reorderKey [''a'', ''b'', ''c''] ''c'' (Some ''b'')) \<and>
   reorderKey [''a'', ''b'', ''c''] ''c'' (Some ''b'') = [''a'', ''c'', ''b''] \<and>
   indexOf [''a'', ''b'', ''c''] ''a'' = 0 \<and>
   moveKey [''a'', ''b'', ''c''] ''a'' (- 1) = [''a'', ''b'', ''c''] \<and>
   ''c'' \<in> set [''a'', ''b'', ''c''] \<and>
   indexOf [''a'', ''b'', ''c''] ''c'' = int (length [''a'', ''b'', ''c'']) - 1 \<and>
   moveKey [''a'', ''b'', ''c''] ''c'' 1 = [''a'', ''b'', ''c''] \<and>
   ''a'' \<noteq> [] \<and>
   reorderKey [''a'', ''b'', ''c''] ''a'' (Some []) = [''b'', ''c'', ''a''] \<and>
   ''a'' \<noteq> ''z'' \<and> ''z'' \<notin> set [''a'', ''b'', ''c''] \<and>
   reorderKey [''a'', ''b'', ''c''] ''a'' (Some ''z'') = [''b'', ''c'', ''a'']"
  using reorder_placement [of "[''a'', ''b'', ''c'']" "''c''" "''b''" "''c''" "''a''"]
    reorder_placement [of "[''a'', ''b'', ''c'']" "''c''" "''b''" "''c''" "''c''"]
    reorder_placement [of "[''a'', ''b'', ''c'']" "''c''" "''z''" "''a''" "''c''"]
  by (simp add: reorderKey_def splice_insert_def Let_def)

text \<open>
  An order list that holds the empty string as a key: with it as drop target the
  dragged key goes to the end of the list, not before the target.
\<close>

lemma reorder_empty_target_example:
  "''x'' \<in> set [''x'', [], ''z''] \<and> [] \<in> set [''x'', [], ''z''] \<and> ''x'' \<noteq> [] \<and>
   reorderKey [''x'', [], ''z''] ''x'' (Some []) = [[], ''z'', ''x''] \<and>
   \<not> directlyPrecedes ''x'' [] (reorderKey [''x'', [], ''z''] ''x'' (Some []))"
  by (simp add: reorderKey_def)

section \<open>Properties of the hash cache\<close>

lemma computeSkillHash_cases:
  "computeSkillHash rt d =
     (if \<not> existsSync rt (path_join [d, ''SKILL.md'']) then Inr []
      else case readFileSync rt (path_join [d, ''SKILL.md'']) of
             Inl e \<Rightarrow> Inl e | Inr content \<Rightarrow> Inr (md5_hex rt content))"
  by (simp add: computeSkillHash_def computeFileHash_def Let_def)

lemma getCachedSkillHash_total:
  "\<exists>h cache'. getCachedSkillHash rt cache d = Inr (h, cache')"
  by (auto simp: getCachedSkillHash_def try_catch_def Let_def
      split: sum.splits option.splits)

lemma getCachedSkillHash_absent:
  "\<not> existsSync rt (path_join [d, ''SKILL.md'']) \<Longrightarrow>
     getCachedSkillHash rt cache d = Inr ([], cache)"
  by (simp add: getCachedSkillHash_def Let_def)

lemma getCachedSkillHash_stat_fails:
  "statSync_mtimeMs rt (path_join [d, ''SKILL.md'']) = Inl e \<Longrightarrow>
     getCachedSkillHash rt cache d = Inr ([], cache)"
  by (simp add: getCachedSkillHash_def Let_def try_catch_def)

lemma getCachedSkillHash_hit:
  "existsSync rt (path_join [d, ''SKILL.md'']) \<Longrightarrow>
   statSync_mtimeMs rt (path_join [d, ''SKILL.md'']) = Inr mt \<Longrightarrow>
   cache d = Some cached \<Longrightarrow> mtime cached = mt \<Longrightarrow>
     getCachedSkillHash rt cache d = Inr (hash cached, cache)"
  by (simp add: getCachedSkillHash_def Let_def try_catch_def)

lemma getCachedSkillHash_miss:
  "existsSync rt (path_join [d, ''SKILL.md'']) \<Longrightarrow>
   statSync_mtimeMs rt (path_join [d, ''SKILL.md'']) = Inr mt \<Longrightarrow>
   cache d = None \<or> (\<exists>c. cache d = Some c \<and> mtime c \<noteq> mt) \<Longrightarrow>
   readFileSync rt (path_join [d, ''SKILL.md'']) = Inr content \<Longrightarrow>
     getCachedSkillHash rt cache d =
       Inr (md5_hex rt content, cache(d \<mapsto> \<lparr>hash = md5_hex rt content, mtime = mt\<rparr>))"
  by (auto simp: getCachedSkillHash_def Let_def try_catch_def computeSkillHash_cases)

lemma getCachedSkillHash_read_fails:
  "existsSync rt (path_join [d, ''SKILL.md'']) \<Longrightarrow>
   statSync_mtimeMs rt (path_join [d, ''SKILL.md'']) = Inr mt \<Longrightarrow>
   cache d = None \<or> (\<exists>c. cache d = Some c \<and> mtime c \<noteq> mt) \<Longrightarrow>
   readFileSync rt (path_join [d, ''SKILL.md'']) = Inl e \<Longrightarrow>
     getCachedSkillHash rt cache d = Inr ([], cache)"
  by (auto simp: getCachedSkillHash_def Let_def try_catch_def computeSkillHash_cases)

text \<open>
  After a lookup that found the marker file, its modification time and (where it had
  to read them) its bytes, the cache holds the returned digest under that time.
\<close>

lemma getCachedSkillHash_stores:
  assumes ex: "existsSync rt (path_join [d, ''SKILL.md''])"
    and st: "statSync_mtimeMs rt (path_join [d, ''SKILL.md'']) = Inr mt"
    and rd: "readFileSync rt (path_join [d, ''SKILL.md'']) = Inr content"
  shows "\<exists>h cache'. getCachedSkillHash rt cache d = Inr (h, cache') \<and>
           cache' d = Some \<lparr>hash = h, mtime = mt\<rparr>"
proof (cases "\<exists>c. cache d = Some c \<and> mtime c = mt")
  case True
  then obtain c where c: "cache d = Some c" "mtime c = mt" by blast
  from ex st c have "getCachedSkillHash rt cache d = Inr (hash c, cache)"
    by (simp add: getCachedSkillHash_hit)
  moreover from c have "cache d = Some \<lparr>hash = hash c, mtime = mt\<rparr>" by simp
  ultimately show ?thesis by blast
next
  case False
  then have "cache d = None \<or> (\<exists>c. cache d = Some c \<and> mtime c \<noteq> mt)"
    by (cases "cache d") auto
  with ex st rd have "getCachedSkillHash rt cache d =
      Inr (md5_hex rt content, cache(d \<mapsto> \<lparr>hash = md5_hex rt content, mtime = mt\<rparr>))"
    by (simp add: getCachedSkillHash_miss)
  then show ?thesis by simp
qed

text \<open>
  C2. With the marker file present and its modification time \<open>mt\<close> readable: a cache
  entry stored under \<open>mt\<close> is returned as it is and the cache is left alone, whatever
  the bytes of the file are or whether they can be read; with no entry, or one under
  another time, the digest of the file's bytes is returned and stored with \<open>mt\<close>.
  Without the marker file the result is the empty digest. A second lookup under the
  same modification time, on any later state of the file system, returns the digest of
  the first.
\<close>

theorem cached_hash_lookup:
  "(existsSync rt (path_join [d, ''SKILL.md'']) \<and>
    statSync_mtimeMs rt (path_join [d, ''SKILL.md'']) = Inr mt \<longrightarrow>
      (cache d = Some cached \<and> mtime cached = mt \<longrightarrow>
         getCachedSkillHash rt cache d = Inr (hash cached, cache)) \<and>
      ((cache d = None \<or> (\<exists>c. cache d = Some c \<and> mtime c \<noteq> mt)) \<and>
       readFileSync rt (path_join [d, ''SKILL.md'']) = Inr content \<longrightarrow>
         getCachedSkillHash rt cache d =
           Inr (md5_hex rt content, cache(d \<mapsto> \<lparr>hash = md5_hex rt content, mtime = mt\<rparr>))) \<and>
      (readFileSync rt (path_join [d, ''SKILL.md'']) = Inr content \<and>
       existsSync rt' (path_join [d, ''SKILL.md'']) \<and>
       statSync_mtimeMs rt' (path_join [d, ''SKILL.md'']) = Inr mt \<longrightarrow>
         (\<exists>h cache'. getCachedSkillHash rt cache d = Inr (h, cache') \<and>
            getCachedSkillHash rt' cache' d = Inr (h, cache')))) \<and>
   (\<not> existsSync rt (path_join [d, ''SKILL.md'']) \<longrightarrow>
      getCachedSkillHash rt cache d = Inr ([], cache))"
proof (intro conjI impI)
  assume "existsSync rt (path_join [d, ''SKILL.md'']) \<and>
    statSync_mtimeMs rt (path_join [d, ''SKILL.md'']) = Inr mt"
    and "cache d = Some cached \<and> mtime cached = mt"
  then show "getCachedSkillHash rt cache d = Inr (hash cached, cache)"
    by (simp add: getCachedSkillHash_hit)
next
  assume "existsSync rt (path_join [d, ''SKILL.md'']) \<and>
    statSync_mtimeMs rt (path_join [d, ''SKILL.md'']) = Inr mt"
    and "(cache d = None \<or> (\<exists>c. cache d = Some c \<and> mtime c \<noteq> mt)) \<and>
       readFileSync rt (path_join [d, ''SKILL.md'']) = Inr content"
  then show "getCachedSkillHash rt cache d =
      Inr (md5_hex rt content, cache(d \<mapsto> \<lparr>hash = md5_hex rt content, mtime = mt\<rparr>))"
    using getCachedSkillHash_miss [of rt d mt cache content] by blast
next
  assume a: "existsSync rt (path_join [d, ''SKILL.md'']) \<and>
    statSync_mtimeMs rt (path_join [d, ''SKILL.md'']) = Inr mt"
    and b: "readFileSync rt (path_join [d, ''SKILL.md'']) = Inr content \<and>
       existsSync rt' (path_join [d, ''SKILL.md'']) \<and>
       statSync_mtimeMs rt' (path_join [d, ''SKILL.md'']) = Inr mt"
  from a b obtain h cache' where
    first: "getCachedSkillHash rt cache d = Inr (h, cache')"
    and stored: "cache' d = Some \<lparr>hash = h, mtime = mt\<rparr>"
    using getCachedSkillHash_stores [of rt d mt content cache] by blast
  from b stored have "getCachedSkillHash rt' cache' d = Inr (h, cache')"
    using getCachedSkillHash_hit [of rt' d mt cache' "\<lparr>hash = h, mtime = mt\<rparr>"] by simp
  with first show "\<exists>h cache'. getCachedSkillHash rt cache d = Inr (h, cache') \<and>
            getCachedSkillHash rt' cache' d = Inr (h, cache')"
    by blast
next
  assume "\<not> existsSync rt (path_join [d, ''SKILL.md''])"
  then show "getCachedSkillHash rt cache d = Inr ([], cache)"
    by (rule getCachedSkillHash_absent)
qed

theorem cached_hash_lookup_witness:
  "existsSync (example_runtime [''/ws/.github/skills/pdf/SKILL.md'']
        [(''/ws/.github/skills/pdf/SKILL.md'', 1000)]
        [(''/ws/.github/skills/pdf/SKILL.md'', ''# pdf v1'')] [])
     (path_join [''/ws/.github/skills/pdf'', ''SKILL.md'']) \<and>
   statSync_mtimeMs (example_runtime [''/ws/.github/skills/pdf/SKILL.md'']
        [(''/ws/.github/skills/pdf/SKILL.md'', 1000)]
        [(''/ws/.github/skills/pdf/SKILL.md'', ''# pdf v1'')] [])
     (path_join [''/ws/.github/skills/pdf'', ''SKILL.md'']) = Inr 1000 \<and>
   getCachedSkillHash (example_runtime [''/ws/.github/skills/pdf/SKILL.md'']
        [(''/ws/.github/skills/pdf/SKILL.md'', 1000)]
        [(''/ws/.github/skills/pdf/SKILL.md'', ''# pdf v1'')] [])
     Map.empty ''/ws/.github/skills/pdf''
     = Inr (''md5:# pdf v1'',
            Map.empty(''/ws/.github/skills/pdf'' \<mapsto> \<lparr>hash = ''md5:# pdf v1'', mtime = 1000\<rparr>)) \<and>
   getCachedSkillHash (example_runtime [''/ws/.github/skills/pdf/SKILL.md'']
        [(''/ws/.github/skills/pdf/SKILL.md'', 1000)]
        [(''/ws/.github/skills/pdf/SKILL.md'', ''# pdf v2'')] [])
     (Map.empty(''/ws/.github/skills/pdf'' \<mapsto> \<lparr>hash = ''md5:# pdf v1'', mtime = 1000\<rparr>))
     ''/ws/.github/skills/pdf''
     = Inr (''md5:# pdf v1'',
            Map.empty(''/ws/.github/skills/pdf'' \<mapsto> \<lparr>hash = ''md5:# pdf v1'', mtime = 1000\<rparr>)) \<and>
   \<not> existsSync (example_runtime [] [] [] []) (path_join [''/ws/.github/skills/pdf'', ''SKILL.md'']) \<and>
   getCachedSkillHash (example_runtime [] [] [] []) Map.empty ''/ws/.github/skills/pdf''
     = Inr ([], Map.empty)"
  using
    cached_hash_lookup [where rt = "example_runtime [''/ws/.github/skills/pdf/SKILL.md'']
        [(''/ws/.github/skills/pdf/SKILL.md'', 1000)]
        [(''/ws/.github/skills/pdf/SKILL.md'', ''# pdf v1'')] []"
      and d = "''/ws/.github/skills/pdf''" and mt = 1000 and cache = Map.empty
      and content = "''# pdf v1''"]
    cached_hash_lookup [where rt = "example_runtime [''/ws/.github/skills/pdf/SKILL.md'']
        [(''/ws/.github/skills/pdf/SKILL.md'', 1000)]
        [(''/ws/.github/skills/pdf/SKILL.md'', ''# pdf v2'')] []"
      and d = "''/ws/.github/skills/pdf''" and mt = 1000
      and cache = "Map.empty(''/ws/.github/skills/pdf'' \<mapsto> \<lparr>hash = ''md5:# pdf v1'', mtime = 1000\<rparr>)"
      and cached = "\<lparr>hash = ''md5:# pdf v1'', mtime = 1000\<rparr>"]
    cached_hash_lookup [where rt = "example_runtime [] [] [] []"
      and d = "''/ws/.github/skills/pdf''" and cache = Map.empty]
  by (simp add: example_runtime_def path_join_def)

section \<open>Properties of the match status\<close>

lemma getSkillMatchStatus_total:
  "\<exists>status cache'. getSkillMatchStatus rt table cache skill = Inr (status, cache')"
proof (cases "localPath skill")
  case None
  then show ?thesis
    by (auto simp: getSkillMatchStatus_def split: option.splits)
next
  case (Some lp)
  obtain rh c where "getCachedSkillHash rt cache lp = Inr (rh, c)"
    using getCachedSkillHash_total by blast
  with Some show ?thesis
    by (auto simp: getSkillMatchStatus_def split: option.splits)
qed

text \<open>
  C9. \<^verbatim>\<open>getCachedSkillHash\<close> returns a string for every directory path and never
  throws. The string is empty when the marker file does not exist, when reading its
  modification time fails, and when reading its bytes fails. \<^verbatim>\<open>getSkillMatchStatus\<close>,
  which calls it, never throws either.
\<close>

theorem hash_lookup_never_raises:
  "(\<exists>h cache'. getCachedSkillHash rt cache d = Inr (h, cache')) \<and>
   (\<not> existsSync rt (path_join [d, ''SKILL.md'']) \<longrightarrow>
      getCachedSkillHash rt cache d = Inr ([], cache)) \<and>
   (statSync_mtimeMs rt (path_join [d, ''SKILL.md'']) = Inl e \<longrightarrow>
      getCachedSkillHash rt cache d = Inr ([], cache)) \<and>
   (existsSync rt (path_join [d, ''SKILL.md'']) \<and>
    statSync_mtimeMs rt (path_join [d, ''SKILL.md'']) = Inr mt \<and>
    (cache d = None \<or> (\<exists>c. cache d = Some c \<and> mtime c \<noteq> mt)) \<and>
    readFileSync rt (path_join [d, ''SKILL.md'']) = Inl e \<longrightarrow>
      getCachedSkillHash rt cache d = Inr ([], cache)) \<and>
   (\<exists>status cache'. getSkillMatchStatus rt table cache skill = Inr (status, cache'))"
proof (intro conjI impI)
  show "\<exists>h cache'. getCachedSkillHash rt cache d = Inr (h, cache')"
    by (rule getCachedSkillHash_total)
next
  assume "\<not> existsSync rt (path_join [d, ''SKILL.md''])"
  then show "getCachedSkillHash rt cache d = Inr ([], cache)"
    by (rule getCachedSkillHash_absent)
next
  assume "statSync_mtimeMs rt (path_join [d, ''SKILL.md'']) = Inl e"
  then show "getCachedSkillHash rt cache d = Inr ([], cache)"
    by (rule getCachedSkillHash_stat_fails)
next
  assume "existsSync rt (path_join [d, ''SKILL.md'']) \<and>
    statSync_mtimeMs rt (path_join [d, ''SKILL.md'']) = Inr mt \<and>
    (cache d = None \<or> (\<exists>c. cache d = Some c \<and> mtime c \<noteq> mt)) \<and>
    readFileSync rt (path_join [d, ''SKILL.md'']) = Inl e"
  then show "getCachedSkillHash rt cache d = Inr ([], cache)"
    using getCachedSkillHash_read_fails [of rt d mt cache e] by blast
next
  show "\<exists>status cache'. getSkillMatchStatus rt table cache skill = Inr (status, cache')"
    by (rule getSkillMatchStatus_total)
qed

theorem hash_lookup_never_raises_witness:
  "\<not> existsSync (example_runtime [] [] [] []) (path_join [''/ws/.github/skills/pdf'', ''SKILL.md'']) \<and>
   getCachedSkillHash (example_runtime [] [] [] []) Map.empty ''/ws/.github/skills/pdf''
     = Inr ([], Map.empty) \<and>
   statSync_mtimeMs (example_runtime [''/ws/.github/skills/pdf/SKILL.md''] [] [] [])
     (path_join [''/ws/.github/skills/pdf'', ''SKILL.md'']) = Inl FsError \<and>
   getCachedSkillHash (example_runtime [''/ws/.github/skills/pdf/SKILL.md''] [] [] [])
     Map.empty ''/ws/.github/skills/pdf'' = Inr ([], Map.empty) \<and>
   existsSync (example_runtime [''/ws/.github/skills/pdf/SKILL.md'']
       [(''/ws/.github/skills/pdf/SKILL.md'', 1000)] [] [])
     (path_join [''/ws/.github/skills/pdf'', ''SKILL.md'']) \<and>
   readFileSync (example_runtime [''/ws/.github/skills/pdf/SKILL.md'']
       [(''/ws/.github/skills/pdf/SKILL.md'', 1000)] [] [])
     (path_join [''/ws/.github/skills/pdf'', ''SKILL.md'']) = Inl FsError \<and>
   getCachedSkillHash (example_runtime [''/ws/.github/skills/pdf/SKILL.md'']
       [(''/ws/.github/skills/pdf/SKILL.md'', 1000)] [] [])
     Map.empty ''/ws/.github/skills/pdf'' = Inr ([], Map.empty)"
  using
    hash_lookup_never_raises [where rt = "example_runtime [] [] [] []"
      and d = "''/ws/.github/skills/pdf''" and cache = Map.empty]
    hash_lookup_never_raises [where rt = "example_runtime [''/ws/.github/skills/pdf/SKILL.md''] [] [] []"
      and d = "''/ws/.github/skills/pdf''" and cache = Map.empty and e = FsError]
    hash_lookup_never_raises [where rt = "example_runtime [''/ws/.github/skills/pdf/SKILL.md'']
       [(''/ws/.github/skills/pdf/SKILL.md'', 1000)] [] []"
      and d = "''/ws/.github/skills/pdf''" and cache = Map.empty and e = FsError and mt = 1000]
  by (simp add: example_runtime_def path_join_def)

text \<open>
  The installed table can hold the empty digest: the marker file of \<^verbatim>\<open>pdf\<close> exists but
  its modification time cannot be read.
\<close>

lemma installed_table_empty_digest_example:
  "fst (updateInstalledSkillHashes
          (example_runtime [''/ws/.github/skills'', ''/ws/.github/skills/pdf/SKILL.md''] [] []
             [(''/ws/.github/skills'', [\<lparr>Dirent.name = ''pdf'', isDirectory = True\<rparr>])])
          (Some ''/ws/.github/skills'') Map.empty) ''pdf'' = Some []"
  by (simp add: updateInstalledSkillHashes_def getCachedSkillHash_def try_catch_def
      example_runtime_def path_join_def startsWith_def)

text \<open>
  An installed copy and a repository copy with the same bytes match; with different
  bytes they are in conflict.
\<close>

lemma match_status_examples:
  "getSkillMatchStatus
     (example_runtime [''/cache/r/pdf'', ''/cache/r/pdf/SKILL.md'']
        [(''/cache/r/pdf/SKILL.md'', 7)] [(''/cache/r/pdf/SKILL.md'', ''# pdf'')] [])
     (Map.empty(''pdf'' \<mapsto> ''md5:# pdf'')) Map.empty
     \<lparr>Skill.name = ''pdf'', description = [], path = ''pdf'',
      repoUrl = ''https://example.org/r.git'', localPath = Some ''/cache/r/pdf'',
      installed = None, matchStatus = None\<rparr>
   = Inr (Matched, Map.empty(''/cache/r/pdf'' \<mapsto> \<lparr>hash = ''md5:# pdf'', mtime = 7\<rparr>))"
  "getSkillMatchStatus
     (example_runtime [''/cache/r/pdf'', ''/cache/r/pdf/SKILL.md'']
        [(''/cache/r/pdf/SKILL.md'', 7)] [(''/cache/r/pdf/SKILL.md'', ''# pdf'')] [])
     (Map.empty(''pdf'' \<mapsto> ''md5:# edited'')) Map.empty
     \<lparr>Skill.name = ''pdf'', description = [], path = ''pdf'',
      repoUrl = ''https://example.org/r.git'', localPath = Some ''/cache/r/pdf'',
      installed = None, matchStatus = None\<rparr>
   = Inr (Conflict, Map.empty(''/cache/r/pdf'' \<mapsto> \<lparr>hash = ''md5:# pdf'', mtime = 7\<rparr>))"
  by (simp_all add: getSkillMatchStatus_def getCachedSkillHash_def try_catch_def
      computeSkillHash_def computeFileHash_def example_runtime_def path_join_def)

text \<open>
  C1. \<^verbatim>\<open>getSkillMatchStatus\<close> always returns a status. It is \<open>NotInstalled\<close> exactly
  when the table has no entry under the skill's name, or the entry is the empty digest,
  or the skill has no local path, an empty one, or one that does not exist. It is
  \<open>Matched\<close> exactly when a non-empty entry and an existing local copy are there and
  the digest of the local copy equals the entry, and \<open>Conflict\<close> exactly when both
  are there and the two digests differ.
\<close>

theorem match_status_characterisation:
  "\<exists>status cache'. getSkillMatchStatus rt table cache skill = Inr (status, cache') \<and>
     (status = NotInstalled \<longleftrightarrow>
        (table (Skill.name skill) = None \<or> table (Skill.name skill) = Some [] \<or>
         localPath skill = None \<or> localPath skill = Some [] \<or>
         (\<exists>lp. localPath skill = Some lp \<and> \<not> existsSync rt lp))) \<and>
     (status = Matched \<longleftrightarrow>
        (\<exists>h lp c. table (Skill.name skill) = Some h \<and> h \<noteq> [] \<and>
           localPath skill = Some lp \<and> lp \<noteq> [] \<and> existsSync rt lp \<and>
           getCachedSkillHash rt cache lp = Inr (h, c))) \<and>
     (status = Conflict \<longleftrightarrow>
        (\<exists>h lp h' c. table (Skill.name skill) = Some h \<and> h \<noteq> [] \<and>
           localPath skill = Some lp \<and> lp \<noteq> [] \<and> existsSync rt lp \<and>
           getCachedSkillHash rt cache lp = Inr (h', c) \<and> h' \<noteq> h))"
proof (cases "table (Skill.name skill)")
  case None
  then show ?thesis by (simp add: getSkillMatchStatus_def)
next
  case (Some h)
  show ?thesis
  proof (cases "h = []")
    case True
    with Some show ?thesis by (simp add: getSkillMatchStatus_def)
  next
    case hne: False
    show ?thesis
    proof (cases "localPath skill")
      case None
      with Some hne show ?thesis by (simp add: getSkillMatchStatus_def)
    next
      case lp: (Some lp)
      show ?thesis
      proof (cases "lp \<noteq> [] \<and> existsSync rt lp")
        case False
        with Some hne lp show ?thesis by (auto simp: getSkillMatchStatus_def)
      next
        case True
        obtain rh c where g: "getCachedSkillHash rt cache lp = Inr (rh, c)"
          using getCachedSkillHash_total by blast
        show ?thesis
        proof (cases "h = rh")
          case True
          with Some hne lp \<open>lp \<noteq> [] \<and> existsSync rt lp\<close> g show ?thesis
            by (simp add: getSkillMatchStatus_def)
        next
          case False
          with Some hne lp \<open>lp \<noteq> [] \<and> existsSync rt lp\<close> g show ?thesis
            by (auto simp: getSkillMatchStatus_def)
        qed
      qed
    qed
  qed
qed

text \<open>
  An entry \<^verbatim>\<open>abc\<close> is stored under the skill's name and the skill's local copy is
  gone, so that its own digest is empty and differs from the entry: the status is
  \<open>NotInstalled\<close>, not \<open>Conflict\<close>.
\<close>

theorem match_status_counterexample:
  "(Map.empty(''pdf'' \<mapsto> ''abc'')) ''pdf'' = Some ''abc'' \<and>
   getCachedSkillHash (example_runtime [] [] [] []) Map.empty ''/cache/repo/pdf''
     = Inr ([], Map.empty) \<and>
   getSkillMatchStatus (example_runtime [] [] [] []) (Map.empty(''pdf'' \<mapsto> ''abc'')) Map.empty
     \<lparr>Skill.name = ''pdf'', description = [], path = ''pdf'',
      repoUrl = ''https://example.org/r.git'', localPath = Some ''/cache/repo/pdf'',
      installed = None, matchStatus = None\<rparr>
     = Inr (NotInstalled, Map.empty)"
  by (simp add: getSkillMatchStatus_def getCachedSkillHash_def example_runtime_def path_join_def)

section \<open>Properties of the repository list\<close>

lemma PRESET_REPOS_distinct: "distinct (map url PRESET_REPOS)"
  by (simp add: PRESET_REPOS_def)

lemma preset_test: "list_ex (\<lambda>p. url p = url r) PRESET_REPOS \<longleftrightarrow> url r \<in> url ` set PRESET_REPOS"
  unfolding list_ex_iff image_iff by (metis (no_types))

lemma getRepos_append:
  "getRepos userRepos =
     PRESET_REPOS @ filter (\<lambda>r. url r \<notin> url ` set PRESET_REPOS) userRepos"
  by (simp add: getRepos_def preset_test)

lemma count_distinct_key:
  "distinct (map f xs) \<Longrightarrow> x \<in> set xs \<Longrightarrow> length (filter (\<lambda>r. f r = f x) xs) = 1"
proof (induction xs)
  case Nil
  then show ?case by simp
next
  case (Cons a xs)
  show ?case
  proof (cases "f a = f x")
    case True
    from Cons.prems have "f a \<notin> f ` set xs" by simp
    with True have "\<forall>r\<in>set xs. f r \<noteq> f x" by (metis imageI)
    then have "filter (\<lambda>r. f r = f x) xs = []" by (simp add: filter_empty_conv)
    with True show ?thesis by simp
  next
    case False
    with Cons show ?thesis by auto
  qed
qed

lemma preset_url_once:
  assumes "p \<in> set PRESET_REPOS"
  shows "length (filter (\<lambda>r. url r = url p) (getRepos userRepos)) = 1"
proof -
  have "filter (\<lambda>r. url r = url p) (filter (\<lambda>r. url r \<notin> url ` set PRESET_REPOS) userRepos) = []"
    using assms by (auto simp: filter_empty_conv)
  moreover have "length (filter (\<lambda>r. url r = url p) PRESET_REPOS) = 1"
    using PRESET_REPOS_distinct assms by (rule count_distinct_key)
  ultimately show ?thesis by (simp add: getRepos_append)
qed

lemma getRepos_distinct:
  assumes "distinct (map url userRepos)"
  shows "distinct (map url (getRepos userRepos))"
proof -
  have "distinct (map url (filter (\<lambda>r. url r \<notin> url ` set PRESET_REPOS) userRepos))"
    using assms by (rule distinct_map_filter)
  moreover have "url ` set PRESET_REPOS \<inter>
      url ` set (filter (\<lambda>r. url r \<notin> url ` set PRESET_REPOS) userRepos) = {}"
    by (auto simp: image_iff)
  ultimately show ?thesis
    using PRESET_REPOS_distinct by (simp add: getRepos_append)
qed

text \<open>
  C6. For every stored configuration the result of \<^verbatim>\<open>getRepos\<close> starts with the
  presets in their fixed order, followed by the stored entries whose URL is not a
  preset's; every preset is in it and every preset URL occurs exactly once; when the
  stored URLs are pairwise distinct, so are the URLs of the result. After
  \<^verbatim>\<open>removeRepo\<close>, for a preset URL or any other, the presets are still there.
\<close>

theorem getRepos_presets:
  "take (length PRESET_REPOS) (getRepos userRepos) = PRESET_REPOS \<and>
   drop (length PRESET_REPOS) (getRepos userRepos) =
     filter (\<lambda>r. url r \<notin> url ` set PRESET_REPOS) userRepos \<and>
   set PRESET_REPOS \<subseteq> set (getRepos userRepos) \<and>
   (p \<in> set PRESET_REPOS \<longrightarrow>
      length (filter (\<lambda>r. url r = url p) (getRepos userRepos)) = 1) \<and>
   (distinct (map url userRepos) \<longrightarrow> distinct (map url (getRepos userRepos))) \<and>
   take (length PRESET_REPOS) (getRepos (removeRepo u userRepos)) = PRESET_REPOS \<and>
   set PRESET_REPOS \<subseteq> set (getRepos (removeRepo u userRepos))"
proof (intro conjI impI)
  show "take (length PRESET_REPOS) (getRepos userRepos) = PRESET_REPOS"
    by (simp add: getRepos_append)
  show "drop (length PRESET_REPOS) (getRepos userRepos) =
      filter (\<lambda>r. url r \<notin> url ` set PRESET_REPOS) userRepos"
    by (simp add: getRepos_append)
  show "set PRESET_REPOS \<subseteq> set (getRepos userRepos)"
    by (simp add: getRepos_append)
  show "take (length PRESET_REPOS) (getRepos (removeRepo u userRepos)) = PRESET_REPOS"
    by (simp add: getRepos_append)
  show "set PRESET_REPOS \<subseteq> set (getRepos (removeRepo u userRepos))"
    by (simp add: getRepos_append)
next
  assume "p \<in> set PRESET_REPOS"
  then show "length (filter (\<lambda>r. url r = url p) (getRepos userRepos)) = 1"
    by (rule preset_url_once)
next
  assume "distinct (map url userRepos)"
  then show "distinct (map url (getRepos userRepos))"
    by (rule getRepos_distinct)
qed

theorem getRepos_presets_witness:
  "\<lparr>url = ''https://github.com/openai/skills.git'', name = ''openai/skills'',
      branch = None, isPreset = Some True\<rparr> \<in> set PRESET_REPOS \<and>
   length (filter (\<lambda>r. url r = ''https://github.com/openai/skills.git'')
     (getRepos [\<lparr>url = ''https://github.com/openai/skills.git'', name = ''mine'',
                  branch = Some ''dev'', isPreset = None\<rparr>,
                \<lparr>url = ''https://example.org/team/skills.git'', name = ''team/skills'',
                  branch = None, isPreset = None\<rparr>])) = 1 \<and>
   distinct (map url
     [\<lparr>url = ''https://github.com/openai/skills.git'', name = ''mine'',
        branch = Some ''dev'', isPreset = None\<rparr>,
      \<lparr>url = ''https://example.org/team/skills.git'', name = ''team/skills'',
        branch = None, isPreset = None\<rparr>]) \<and>
   distinct (map url
     (getRepos [\<lparr>url = ''https://github.com/openai/skills.git'', name = ''mine'',
                  branch = Some ''dev'', isPreset = None\<rparr>,
                \<lparr>url = ''https://example.org/team/skills.git'', name = ''team/skills'',
                  branch = None, isPreset = None\<rparr>])) \<and>
   set PRESET_REPOS \<subseteq> set (getRepos (removeRepo ''https://github.com/openai/skills.git''
     [\<lparr>url = ''https://github.com/openai/skills.git'', name = ''mine'',
        branch = Some ''dev'', isPreset = None\<rparr>,
      \<lparr>url = ''https://example.org/team/skills.git'', name = ''team/skills'',
        branch = None, isPreset = None\<rparr>]))"
  using getRepos_presets [where
      p = "\<lparr>url = ''https://github.com/openai/skills.git'', name = ''openai/skills'',
              branch = None, isPreset = Some True\<rparr>"
      and u = "''https://github.com/openai/skills.git''"
      and userRepos = "[\<lparr>url = ''https://github.com/openai/skills.git'', name = ''mine'',
                          branch = Some ''dev'', isPreset = None\<rparr>,
                        \<lparr>url = ''https://example.org/team/skills.git'', name = ''team/skills'',
                          branch = None, isPreset = None\<rparr>]"]
  by (simp add: PRESET_REPOS_def)

text \<open>
  A stored configuration that lists one URL twice: \<^verbatim>\<open>getRepos\<close> returns both entries.
\<close>

theorem getRepos_duplicate_counterexample:
  "\<not> distinct (map url
     (getRepos [\<lparr>url = ''https://example.org/team/skills.git'', name = ''team/skills'',
                  branch = None, isPreset = None\<rparr>,
                \<lparr>url = ''https://example.org/team/skills.git'', name = ''team/skills'',
                  branch = None, isPreset = None\<rparr>]))"
  by (simp add: getRepos_def PRESET_REPOS_def)

section \<open>Properties of the local directory groups\<close>

lemma js_unique_set: "set (js_unique seen xs) = set xs - set seen"
  by (induction xs arbitrary: seen) auto

lemma IDE_CONFIGS_in_values: "IDE_CONFIGS ide \<in> set IDE_CONFIGS_values"
  by (cases ide) (simp_all add: IDE_CONFIGS_values_def)

lemma project_dir_is_candidate:
  "\<exists>dir \<in> set (getSkillDirectories homedir r).
     SkillDirectory.path dir = getProjectSkillsDir r ide"
proof -
  have "skillsDir (IDE_CONFIGS ide) \<in> set (js_unique [] (map skillsDir IDE_CONFIGS_values))"
    using IDE_CONFIGS_in_values [of ide] by (simp add: js_unique_set)
  then show ?thesis
    by (auto simp: getSkillDirectories_def Let_def getProjectSkillsDir_def)
qed

lemma groupIsSurfaced_iff:
  "groupIsSurfaced rt grp \<longleftrightarrow>
     isActive grp \<or>
     (exists grp \<and>
      (\<exists>entries. readdirSync rt (LocalSkillsGroup.path grp) = Inr entries \<and>
         (\<exists>entry \<in> set entries.
            isDirectory entry \<and> \<not> startsWith (Dirent.name entry) ''.'' \<and>
            existsSync rt
              (path_join [LocalSkillsGroup.path grp, Dirent.name entry, ''SKILL.md'']))))"
  by (auto simp: groupIsSurfaced_def list_ex_iff split: sum.splits)

lemma active_group_returned:
  assumes "r \<noteq> []"
  shows "\<exists>grp \<in> set (getLocalSkillsGroups rt homedir ide (Some r)).
           isActive grp \<and> LocalSkillsGroup.path grp = getProjectSkillsDir r ide"
proof -
  obtain dir where d: "dir \<in> set (getSkillDirectories homedir r)"
    and p: "SkillDirectory.path dir = getProjectSkillsDir r ide"
    using project_dir_is_candidate by blast
  let ?g = "toLocalSkillsGroup rt (getProjectSkillsDir r ide) dir"
  from d have "?g \<in> set (candidateGroups rt homedir ide r)"
    by (simp add: candidateGroups_def)
  moreover from p have act: "isActive ?g" and pth: "LocalSkillsGroup.path ?g = getProjectSkillsDir r ide"
    by (simp_all add: toLocalSkillsGroup_def)
  moreover from act have "groupIsSurfaced rt ?g" by (simp add: groupIsSurfaced_def)
  ultimately show ?thesis using assms
    by (auto simp: getLocalSkillsGroups_def)
qed

text \<open>
  C8. A candidate group is in the result of \<^verbatim>\<open>getLocalSkillsGroups\<close> exactly when it
  is the active group, or it exists and its listing can be read and holds a directory
  whose name does not start with a dot and which contains \<^verbatim>\<open>SKILL.md\<close>. The flags of
  a candidate are the live probe of its path and the comparison with the active path.
  With a workspace root, the active group is in the result for every state of the file
  system; without one the result is empty.
\<close>

theorem local_groups_surfaced:
  "(grp \<in> set (getLocalSkillsGroups rt homedir ide (Some r)) \<longleftrightarrow>
      r \<noteq> [] \<and> grp \<in> set (candidateGroups rt homedir ide r) \<and>
      (isActive grp \<or>
       (exists grp \<and>
        (\<exists>entries. readdirSync rt (LocalSkillsGroup.path grp) = Inr entries \<and>
           (\<exists>entry \<in> set entries.
              isDirectory entry \<and> \<not> startsWith (Dirent.name entry) ''.'' \<and>
              existsSync rt
                (path_join [LocalSkillsGroup.path grp, Dirent.name entry, ''SKILL.md'']))))))
   \<and> (grp \<in> set (candidateGroups rt homedir ide r) \<longrightarrow>
        exists grp = existsSync rt (LocalSkillsGroup.path grp) \<and>
        isActive grp = (LocalSkillsGroup.path grp = getProjectSkillsDir r ide))
   \<and> (r \<noteq> [] \<longrightarrow>
        (\<exists>g \<in> set (getLocalSkillsGroups rt homedir ide (Some r)).
           isActive g \<and> LocalSkillsGroup.path g = getProjectSkillsDir r ide))
   \<and> getLocalSkillsGroups rt homedir ide None = []
   \<and> getLocalSkillsGroups rt homedir ide (Some []) = []"
proof (intro conjI impI)
  show "grp \<in> set (getLocalSkillsGroups rt homedir ide (Some r)) \<longleftrightarrow>
      r \<noteq> [] \<and> grp \<in> set (candidateGroups rt homedir ide r) \<and>
      (isActive grp \<or>
       (exists grp \<and>
        (\<exists>entries. readdirSync rt (LocalSkillsGroup.path grp) = Inr entries \<and>
           (\<exists>entry \<in> set entries.
              isDirectory entry \<and> \<not> startsWith (Dirent.name entry) ''.'' \<and>
              existsSync rt
                (path_join [LocalSkillsGroup.path grp, Dirent.name entry, ''SKILL.md''])))))"
    unfolding groupIsSurfaced_iff [symmetric]
    by (simp add: getLocalSkillsGroups_def)
next
  assume c: "grp \<in> set (candidateGroups rt homedir ide r)"
  then show "exists grp = existsSync rt (LocalSkillsGroup.path grp)"
    by (auto simp: candidateGroups_def toLocalSkillsGroup_def)
  from c show "isActive grp = (LocalSkillsGroup.path grp = getProjectSkillsDir r ide)"
    by (auto simp: candidateGroups_def toLocalSkillsGroup_def)
next
  assume "r \<noteq> []"
  then show "\<exists>g \<in> set (getLocalSkillsGroups rt homedir ide (Some r)).
           isActive g \<and> LocalSkillsGroup.path g = getProjectSkillsDir r ide"
    by (rule active_group_returned)
next
  show "getLocalSkillsGroups rt homedir ide None = []"
    by (simp add: getLocalSkillsGroups_def)
  show "getLocalSkillsGroups rt homedir ide (Some []) = []"
    by (simp add: getLocalSkillsGroups_def)
qed

lemma candidateGroups_example:
  "candidateGroups hidden_skill_runtime ''/home/u'' VSCODE ''/ws'' =
     [\<lparr>LocalSkillsGroup.name = ''.agents/skills'', path = ''/ws/.agents/skills'',
        icon = ''folder-library'', exists = False, isActive = False\<rparr>,
      \<lparr>LocalSkillsGroup.name = ''.agent/skills'', path = ''/ws/.agent/skills'',
        icon = ''folder-library'', exists = False, isActive = False\<rparr>,
      \<lparr>LocalSkillsGroup.name = ''.codebuddy/skills'', path = ''/ws/.codebuddy/skills'',
        icon = ''folder-library'', exists = False, isActive = False\<rparr>,
      \<lparr>LocalSkillsGroup.name = ''.cursor/skills'', path = ''/ws/.cursor/skills'',
        icon = ''folder-library'', exists = True, isActive = False\<rparr>,
      \<lparr>LocalSkillsGroup.name = ''.qoder/skills'', path = ''/ws/.qoder/skills'',
        icon = ''folder-library'', exists = False, isActive = False\<rparr>,
      \<lparr>LocalSkillsGroup.name = ''.trae/skills'', path = ''/ws/.trae/skills'',
        icon = ''folder-library'', exists = False, isActive = False\<rparr>,
      \<lparr>LocalSkillsGroup.name = ''.github/skills'', path = ''/ws/.github/skills'',
        icon = ''folder-library'', exists = False, isActive = True\<rparr>,
      \<lparr>LocalSkillsGroup.name = ''.windsurf/skills'', path = ''/ws/.windsurf/skills'',
        icon = ''folder-library'', exists = False, isActive = False\<rparr>,
      \<lparr>LocalSkillsGroup.name = ''~/.claude/skills'', path = ''/home/u/.claude/skills'',
        icon = ''home'', exists = False, isActive = False\<rparr>,
      \<lparr>LocalSkillsGroup.name = ''~/.codex/skills'', path = ''/home/u/.codex/skills'',
        icon = ''home'', exists = False, isActive = False\<rparr>]"
  by (simp add: candidateGroups_def getSkillDirectories_def IDE_CONFIGS_values_def
      toLocalSkillsGroup_def getProjectSkillsDir_def path_join_def toDisplayPath_def
      startsWith_def Let_def hidden_skill_runtime_def example_runtime_def)

lemma getLocalSkillsGroups_example:
  "getLocalSkillsGroups hidden_skill_runtime ''/home/u'' VSCODE (Some ''/ws'') =
     [\<lparr>LocalSkillsGroup.name = ''.github/skills'', path = ''/ws/.github/skills'',
        icon = ''folder-library'', exists = False, isActive = True\<rparr>]"
proof -
  have "getLocalSkillsGroups hidden_skill_runtime ''/home/u'' VSCODE (Some ''/ws'') =
      filter (groupIsSurfaced hidden_skill_runtime)
        (candidateGroups hidden_skill_runtime ''/home/u'' VSCODE ''/ws'')"
    by (simp add: getLocalSkillsGroups_def)
  then show ?thesis
    unfolding candidateGroups_example
    by (simp add: groupIsSurfaced_def startsWith_def path_join_def hidden_skill_runtime_def
        example_runtime_def)
qed

theorem local_groups_surfaced_witness:
  "\<lparr>LocalSkillsGroup.name = ''.github/skills'', path = ''/ws/.github/skills'',
      icon = ''folder-library'', exists = False, isActive = True\<rparr>
     \<in> set (candidateGroups hidden_skill_runtime ''/home/u'' VSCODE ''/ws'') \<and>
   \<not> existsSync hidden_skill_runtime ''/ws/.github/skills'' \<and>
   ''/ws/.github/skills'' = getProjectSkillsDir ''/ws'' VSCODE \<and>
   ''/ws'' \<noteq> [] \<and>
   (\<exists>g \<in> set (getLocalSkillsGroups hidden_skill_runtime ''/home/u'' VSCODE (Some ''/ws'')).
      isActive g \<and> LocalSkillsGroup.path g = ''/ws/.github/skills'')"
  using local_groups_surfaced [where rt = hidden_skill_runtime and homedir = "''/home/u''"
      and ide = VSCODE and r = "''/ws''"
      and grp = "\<lparr>LocalSkillsGroup.name = ''.github/skills'', path = ''/ws/.github/skills'',
        icon = ''folder-library'', exists = False, isActive = True\<rparr>"]
  by (simp add: candidateGroups_example getProjectSkillsDir_def path_join_def)

text \<open>
  The inactive group \<^verbatim>\<open>.cursor/skills\<close> exists and contains a subdirectory holding a
  marker file, but the subdirectory's name starts with a dot: the group is not in the
  result.
\<close>

theorem local_groups_hidden_counterexample:
  "\<lparr>LocalSkillsGroup.name = ''.cursor/skills'', path = ''/ws/.cursor/skills'',
      icon = ''folder-library'', exists = True, isActive = False\<rparr>
     \<in> set (candidateGroups hidden_skill_runtime ''/home/u'' VSCODE ''/ws'') \<and>
   existsSync hidden_skill_runtime ''/ws/.cursor/skills'' \<and>
   readdirSync hidden_skill_runtime ''/ws/.cursor/skills''
     = Inr [\<lparr>Dirent.name = ''.hidden'', isDirectory = True\<rparr>] \<and>
   existsSync hidden_skill_runtime (path_join [''/ws/.cursor/skills'', ''.hidden'', ''SKILL.md'']) \<and>
   \<lparr>LocalSkillsGroup.name = ''.cursor/skills'', path = ''/ws/.cursor/skills'',
      icon = ''folder-library'', exists = True, isActive = False\<rparr>
     \<notin> set (getLocalSkillsGroups hidden_skill_runtime ''/home/u'' VSCODE (Some ''/ws''))"
  by (simp add: candidateGroups_example getLocalSkillsGroups_example)
     (simp add: hidden_skill_runtime_def example_runtime_def path_join_def)

section \<open>Properties of the bulk selection\<close>

lemma selection_inv_refl: "selection_inv st candidates st"
  by (simp add: selection_inv_def)

lemma selection_inv_setChecked:
  assumes inv: "selection_inv st0 candidates acc"
    and mem: "s \<in> set candidates" and ok: "notConflict s"
  shows "selection_inv st0 candidates (setChecked acc s True)"
proof -
  let ?acc' = "setChecked acc s True"
  have cache': "skillCache ?acc' = (skillCache acc)(getSkillKey s \<mapsto> s)"
    and checked': "set (checkedSkills ?acc') = insert (getSkillKey s) (set (checkedSkills acc))"
    and rest: "installedSkillHashes ?acc' = installedSkillHashes acc"
      "repoSkillsIndex ?acc' = repoSkillsIndex acc" "searchQuery ?acc' = searchQuery acc"
    by (auto simp: setChecked_def Let_def set_add_def)
  have new: "selected_from candidates ?acc' (getSkillKey s)"
    using mem ok by (auto simp: selected_from_def cache')
  have keep: "selected_from candidates ?acc' k"
    if "selected_from candidates acc k" for k
  proof (cases "k = getSkillKey s")
    case True
    with new show ?thesis by simp
  next
    case False
    with that show ?thesis by (auto simp: selected_from_def cache')
  qed
  have c1: "skillCache ?acc' k = skillCache st0 k \<or> selected_from candidates ?acc' k" for k
  proof (cases "k = getSkillKey s")
    case True
    with new show ?thesis by simp
  next
    case False
    then have "skillCache ?acc' k = skillCache acc k" by (simp add: cache')
    with inv keep [of k] show ?thesis by (auto simp: selection_inv_def)
  qed
  have c2: "k \<in> set (checkedSkills st0) \<or> selected_from candidates ?acc' k"
    if "k \<in> set (checkedSkills ?acc')" for k
  proof (cases "k = getSkillKey s")
    case True
    with new show ?thesis by simp
  next
    case False
    with that have "k \<in> set (checkedSkills acc)" by (simp add: checked')
    with inv keep [of k] show ?thesis by (auto simp: selection_inv_def)
  qed
  from c1 c2 rest inv show ?thesis by (simp add: selection_inv_def)
qed

lemma checkAllMatching_fold_inv:
  "selection_inv st0 candidates acc \<Longrightarrow> set xs \<subseteq> set candidates \<Longrightarrow>
     selection_inv st0 candidates
       (foldl (\<lambda>acc skill.
                 if matchStatus skill = Some Conflict then acc else setChecked acc skill True)
          acc xs)"
proof (induction xs arbitrary: acc)
  case Nil
  then show ?case by simp
next
  case (Cons x xs)
  show ?case
  proof (cases "matchStatus x = Some Conflict")
    case True
    with Cons show ?thesis by simp
  next
    case False
    then have "notConflict x" by (simp add: notConflict_def)
    with Cons.prems have "selection_inv st0 candidates (setChecked acc x True)"
      by (simp add: selection_inv_setChecked)
    with Cons False show ?thesis by simp
  qed
qed

lemma checkAllSkillsInRepo_loop_inv:
  "selection_inv st0 candidates acc \<Longrightarrow> set xs \<subseteq> set candidates \<Longrightarrow>
     \<exists>st' cache'. checkAllSkillsInRepo_loop rt xs acc cache = Inr (st', cache') \<and>
        selection_inv st0 candidates st'"
proof (induction xs arbitrary: acc cache)
  case Nil
  then show ?case by simp
next
  case (Cons x xs)
  from Cons.prems have xmem: "x \<in> set candidates" and sub: "set xs \<subseteq> set candidates"
    by simp_all
  obtain status c1 where eff:
    "(case matchStatus x of
        Some status \<Rightarrow> Inr (status, cache)
      | None \<Rightarrow> getSkillMatchStatus rt (installedSkillHashes acc) cache x) = Inr (status, c1)"
    and stored: "matchStatus x = Some Conflict \<Longrightarrow> status = Conflict"
    using getSkillMatchStatus_total [of rt "installedSkillHashes acc" cache x]
    by (cases "matchStatus x") auto
  show ?case
  proof (cases "status = Conflict")
    case True
    with eff Cons.IH [OF Cons.prems(1) sub, of c1] show ?thesis by simp
  next
    case False
    with stored have "notConflict x" by (auto simp: notConflict_def)
    with Cons.prems(1) xmem have "selection_inv st0 candidates (setChecked acc x True)"
      by (simp add: selection_inv_setChecked)
    from Cons.IH [OF this sub, of c1] eff False show ?thesis by simp
  qed
qed

lemma getCheckedSkills_set:
  "set (getCheckedSkills st) = {s. \<exists>k \<in> set (checkedSkills st). skillCache st k = Some s}"
proof -
  have "set (List.map_filter f xs) = {y. \<exists>x \<in> set xs. f x = Some y}" for f :: "string \<rightharpoonup> Skill" and xs
    by (induction xs) (auto simp: List.map_filter_simps split: option.splits)
  then show ?thesis by (simp add: getCheckedSkills_def)
qed

lemma selection_inv_checked:
  assumes inv: "selection_inv st0 candidates st'"
    and before: "list_all notConflict (getCheckedSkills st0)"
  shows "list_all notConflict (getCheckedSkills st')"
proof -
  have "notConflict s" if "k \<in> set (checkedSkills st')" "skillCache st' k = Some s" for k s
  proof (cases "selected_from candidates st' k")
    case True
    with that show ?thesis by (auto simp: selected_from_def)
  next
    case False
    from inv have "skillCache st' k = skillCache st0 k \<or> selected_from candidates st' k"
      and "k \<in> set (checkedSkills st') \<longrightarrow>
           k \<in> set (checkedSkills st0) \<or> selected_from candidates st' k"
      unfolding selection_inv_def by blast+
    with False that have "skillCache st0 k = Some s" "k \<in> set (checkedSkills st0)"
      by simp_all
    then have "s \<in> set (getCheckedSkills st0)" by (auto simp: getCheckedSkills_set)
    with before show ?thesis by (simp add: list_all_iff)
  qed
  then show ?thesis by (auto simp: list_all_iff getCheckedSkills_set)
qed

lemma selection_inv_added:
  assumes inv: "selection_inv st0 candidates st'"
    and new: "k \<in> set (checkedSkills st')" "k \<notin> set (checkedSkills st0)"
  shows "\<exists>s \<in> set candidates. getSkillKey s = k \<and> skillCache st' k = Some s \<and>
           matchStatus s \<noteq> Some Conflict"
  using assms by (auto simp: selection_inv_def selected_from_def notConflict_def)

lemma checkAllMatchingRepoSkills_inv:
  "selection_inv st (getAllMatchingRepoSkills st) (checkAllMatchingRepoSkills st)"
  unfolding checkAllMatchingRepoSkills_def
  by (rule checkAllMatching_fold_inv) (simp_all add: selection_inv_refl)

lemma checkAllSkillsInRepo_inv:
  "\<exists>st' cache'. checkAllSkillsInRepo rt st cache repo = Inr (st', cache') \<and>
     selection_inv st
       (case map_of (repoSkillsIndex st) (url repo) of None \<Rightarrow> [] | Some ss \<Rightarrow> ss) st'"
proof -
  let ?skills = "case map_of (repoSkillsIndex st) (url repo) of None \<Rightarrow> [] | Some ss \<Rightarrow> ss"
  let ?cands = "if searchQuery st \<noteq> [] then filterSkills (searchQuery st) ?skills else ?skills"
  have "set ?cands \<subseteq> set ?skills" by (auto simp: filterSkills_def Let_def)
  with selection_inv_refl [of st ?skills]
  have "\<exists>st' cache'. checkAllSkillsInRepo_loop rt ?cands st cache = Inr (st', cache') \<and>
        selection_inv st ?skills st'"
    by (rule checkAllSkillsInRepo_loop_inv)
  then show ?thesis by (simp add: checkAllSkillsInRepo_def Let_def)
qed

text \<open>
  C10. After \<^verbatim>\<open>checkAllMatchingRepoSkills()\<close> and after \<^verbatim>\<open>checkAllSkillsInRepo(repo)\<close>:
  if no checked skill was in conflict before, none is after, and every key the operation
  added to the checked set is the key of a candidate skill that is not in conflict, which
  is the skill the provider returns for that key. \<^verbatim>\<open>checkAllSkillsInRepo\<close> never throws.
\<close>

theorem bulk_check_skips_conflicts:
  "(list_all notConflict (getCheckedSkills st) \<longrightarrow>
      list_all notConflict (getCheckedSkills (checkAllMatchingRepoSkills st))) \<and>
   (k \<in> set (checkedSkills (checkAllMatchingRepoSkills st)) \<and> k \<notin> set (checkedSkills st) \<longrightarrow>
      (\<exists>s \<in> set (getAllMatchingRepoSkills st).
         getSkillKey s = k \<and> skillCache (checkAllMatchingRepoSkills st) k = Some s \<and>
         matchStatus s \<noteq> Some Conflict)) \<and>
   (\<exists>st' cache'. checkAllSkillsInRepo rt st cache repo = Inr (st', cache') \<and>
      (list_all notConflict (getCheckedSkills st) \<longrightarrow>
         list_all notConflict (getCheckedSkills st')) \<and>
      (k \<in> set (checkedSkills st') \<and> k \<notin> set (checkedSkills st) \<longrightarrow>
         (\<exists>s \<in> set (case map_of (repoSkillsIndex st) (url repo) of None \<Rightarrow> [] | Some ss \<Rightarrow> ss).
            getSkillKey s = k \<and> skillCache st' k = Some s \<and>
            matchStatus s \<noteq> Some Conflict)))"
proof -
  note inv1 = checkAllMatchingRepoSkills_inv [of st]
  obtain st' cache' where run: "checkAllSkillsInRepo rt st cache repo = Inr (st', cache')"
    and inv2: "selection_inv st
       (case map_of (repoSkillsIndex st) (url repo) of None \<Rightarrow> [] | Some ss \<Rightarrow> ss) st'"
    using checkAllSkillsInRepo_inv by blast
  have a: "list_all notConflict (getCheckedSkills st) \<longrightarrow>
      list_all notConflict (getCheckedSkills (checkAllMatchingRepoSkills st))"
    using selection_inv_checked [OF inv1] by blast
  have b: "k \<in> set (checkedSkills (checkAllMatchingRepoSkills st)) \<and> k \<notin> set (checkedSkills st) \<longrightarrow>
      (\<exists>s \<in> set (getAllMatchingRepoSkills st).
         getSkillKey s = k \<and> skillCache (checkAllMatchingRepoSkills st) k = Some s \<and>
         matchStatus s \<noteq> Some Conflict)"
    using selection_inv_added [OF inv1, of k] by blast
  have c: "list_all notConflict (getCheckedSkills st) \<longrightarrow>
         list_all notConflict (getCheckedSkills st')"
    using selection_inv_checked [OF inv2] by blast
  have d: "k \<in> set (checkedSkills st') \<and> k \<notin> set (checkedSkills st) \<longrightarrow>
         (\<exists>s \<in> set (case map_of (repoSkillsIndex st) (url repo) of None \<Rightarrow> [] | Some ss \<Rightarrow> ss).
            getSkillKey s = k \<and> skillCache st' k = Some s \<and>
            matchStatus s \<noteq> Some Conflict)"
    using selection_inv_added [OF inv2, of k] by blast
  from run c d have "\<exists>st' cache'. checkAllSkillsInRepo rt st cache repo = Inr (st', cache') \<and>
      (list_all notConflict (getCheckedSkills st) \<longrightarrow>
         list_all notConflict (getCheckedSkills st')) \<and>
      (k \<in> set (checkedSkills st') \<and> k \<notin> set (checkedSkills st) \<longrightarrow>
         (\<exists>s \<in> set (case map_of (repoSkillsIndex st) (url repo) of None \<Rightarrow> [] | Some ss \<Rightarrow> ss).
            getSkillKey s = k \<and> skillCache st' k = Some s \<and>
            matchStatus s \<noteq> Some Conflict))"
    by blast
  with a b show ?thesis by blast
qed

lemma example_checkAllMatching:
  "checkedSkills (checkAllMatchingRepoSkills example_provider) = [''https://example.org/r.git::pdf'']"
  by (simp add: checkAllMatchingRepoSkills_def getAllMatchingRepoSkills_def filterSkills_def
      example_provider_def setChecked_def set_add_def getSkillKey_def Let_def)

lemma example_checkAllInRepo:
  "\<exists>st'. checkAllSkillsInRepo (example_runtime [] [] [] []) example_provider Map.empty
       \<lparr>url = ''https://example.org/r.git'', name = ''r'', branch = None, isPreset = None\<rparr>
     = Inr (st', Map.empty) \<and> checkedSkills st' = [''https://example.org/r.git::pdf'']"
  by (simp add: checkAllSkillsInRepo_def example_provider_def setChecked_def set_add_def
      getSkillKey_def Let_def)

theorem bulk_check_skips_conflicts_witness:
  "list_all notConflict (getCheckedSkills example_provider) \<and>
   list_all notConflict (getCheckedSkills (checkAllMatchingRepoSkills example_provider)) \<and>
   ''https://example.org/r.git::pdf'' \<in> set (checkedSkills (checkAllMatchingRepoSkills example_provider)) \<and>
   ''https://example.org/r.git::pdf'' \<notin> set (checkedSkills example_provider) \<and>
   (\<exists>s \<in> set (getAllMatchingRepoSkills example_provider).
      getSkillKey s = ''https://example.org/r.git::pdf'' \<and>
      skillCache (checkAllMatchingRepoSkills example_provider) ''https://example.org/r.git::pdf'' = Some s \<and>
      matchStatus s \<noteq> Some Conflict) \<and>
   (\<exists>st'. checkAllSkillsInRepo (example_runtime [] [] [] []) example_provider Map.empty
       \<lparr>url = ''https://example.org/r.git'', name = ''r'', branch = None, isPreset = None\<rparr>
     = Inr (st', Map.empty) \<and> checkedSkills st' = [''https://example.org/r.git::pdf''])"
proof -
  have pre: "list_all notConflict (getCheckedSkills example_provider)"
    by (simp add: getCheckedSkills_def example_provider_def List.map_filter_simps)
  have new: "''https://example.org/r.git::pdf'' \<in> set (checkedSkills (checkAllMatchingRepoSkills example_provider))"
    "''https://example.org/r.git::pdf'' \<notin> set (checkedSkills example_provider)"
    by (simp_all add: example_checkAllMatching) (simp add: example_provider_def)
  from pre new example_checkAllInRepo
    bulk_check_skips_conflicts [of example_provider "''https://example.org/r.git::pdf''"]
  show ?thesis by blast
qed

section \<open>Properties of the single-flight rebuild\<close>

lemma single_flight_initial: "single_flight initial_indexing"
  by (simp add: single_flight_def initial_indexing_def)

lemma single_flight_buildIndex: "single_flight st \<Longrightarrow> single_flight (snd (buildIndex st))"
  by (auto simp: single_flight_def buildIndex_def doBuildIndex_def Let_def split: option.splits)

lemma single_flight_settle: "single_flight st \<Longrightarrow> single_flight (settle p st)"
  by (auto simp: single_flight_def settle_def finally_callback_def split: option.splits)

lemma single_flight_step: "single_flight st \<Longrightarrow> single_flight (indexing_step st e)"
  by (cases e) (simp_all add: refresh_def single_flight_buildIndex single_flight_settle)

lemma single_flight_foldl:
  "single_flight st \<Longrightarrow> single_flight (foldl indexing_step st events)"
  by (induction events arbitrary: st) (simp_all add: single_flight_step)

lemma single_flight_run: "single_flight (indexing_run events)"
  unfolding indexing_run_def by (rule single_flight_foldl) (rule single_flight_initial)

lemma buildIndex_joins: "indexingPromise st = Some p \<Longrightarrow> buildIndex st = (p, st)"
  by (simp add: buildIndex_def)

lemma buildIndex_starts:
  "indexingPromise st = None \<Longrightarrow>
     buildIndex st =
       (rebuildsStarted st,
        st\<lparr>rebuildsStarted := Suc (rebuildsStarted st),
           rebuildsRunning := rebuildsRunning st @ [rebuildsStarted st],
           indexingPromise := Some (rebuildsStarted st)\<rparr>)"
  by (simp add: buildIndex_def doBuildIndex_def Let_def)

lemma refresh_twice:
  "rebuildsStarted (refresh (refresh st)) =
     (if indexingPromise st = None then Suc (rebuildsStarted st) else rebuildsStarted st)"
  by (cases "indexingPromise st") (simp_all add: refresh_def buildIndex_starts buildIndex_joins)

lemma buildIndex_twice_same_promise:
  "fst (buildIndex (snd (buildIndex st))) = fst (buildIndex st)"
  by (cases "indexingPromise st") (simp_all add: buildIndex_starts buildIndex_joins)

text \<open>
  C3. In every state reached by calls of \<^verbatim>\<open>refresh()\<close> and \<^verbatim>\<open>buildIndex()\<close> and by
  settlements of rebuilds, at most one rebuild is running, and it is the one
  \<^verbatim>\<open>indexingPromise\<close> holds. A call of \<^verbatim>\<open>buildIndex()\<close> while a rebuild is in flight
  returns that rebuild's promise and changes nothing. Two calls of \<^verbatim>\<open>refresh()\<close> in
  a row start one rebuild when none was in flight and none otherwise, and both calls
  of \<^verbatim>\<open>buildIndex()\<close> return the same promise.
\<close>

theorem single_flight_rebuild:
  "length (rebuildsRunning (indexing_run events)) \<le> 1 \<and>
   rebuildsRunning (indexing_run events) =
     (case indexingPromise (indexing_run events) of None \<Rightarrow> [] | Some p \<Rightarrow> [p]) \<and>
   (indexingPromise st = Some p \<longrightarrow> buildIndex st = (p, st)) \<and>
   rebuildsStarted (refresh (refresh st)) =
     (if indexingPromise st = None then Suc (rebuildsStarted st) else rebuildsStarted st) \<and>
   rebuildsRunning (refresh (refresh st)) = rebuildsRunning (refresh st) \<and>
   fst (buildIndex (snd (buildIndex st))) = fst (buildIndex st) \<and>
   rebuildsStarted (indexing_run (events @ [CallRefresh, CallRefresh])) \<le>
     Suc (rebuildsStarted (indexing_run events))"
proof -
  have inv: "single_flight (indexing_run events)" by (rule single_flight_run)
  then have one: "length (rebuildsRunning (indexing_run events)) \<le> 1"
    by (simp add: single_flight_def split: option.splits)
  have same: "rebuildsRunning (refresh (refresh st)) = rebuildsRunning (refresh st)"
    by (cases "indexingPromise st") (simp_all add: refresh_def buildIndex_starts buildIndex_joins)
  have run2: "indexing_run (events @ [CallRefresh, CallRefresh]) =
      refresh (refresh (indexing_run events))"
    by (simp add: indexing_run_def)
  have le: "rebuildsStarted (indexing_run (events @ [CallRefresh, CallRefresh])) \<le>
     Suc (rebuildsStarted (indexing_run events))"
    unfolding run2 by (simp add: refresh_twice)
  from inv one same le show ?thesis
    by (simp add: single_flight_def buildIndex_joins refresh_twice buildIndex_twice_same_promise)
qed

theorem single_flight_rebuild_witness:
  "indexingPromise (indexing_run [CallRefresh]) = Some 0 \<and>
   buildIndex (indexing_run [CallRefresh]) = (0, indexing_run [CallRefresh]) \<and>
   rebuildsStarted (indexing_run [CallRefresh, CallRefresh]) = 1 \<and>
   rebuildsRunning (indexing_run [CallRefresh, CallRefresh]) = [0] \<and>
   rebuildsStarted (indexing_run [CallRefresh, CallRefresh, Settles 0, CallRefresh]) = 2 \<and>
   rebuildsRunning (indexing_run [CallRefresh, CallRefresh, Settles 0, CallRefresh]) = [1]"
  using single_flight_rebuild [of "[CallRefresh]" "indexing_run [CallRefresh]" 0]
  by (simp add: indexing_run_def initial_indexing_def refresh_def buildIndex_def
      doBuildIndex_def settle_def finally_callback_def Let_def)

section \<open>Properties of the bounded fan-out\<close>





















text \<open>
  With a concurrency bound of 0 the promise resolves at once with every slot of the
  result empty.
\<close>

lemma mapWithConcurrency_zero_example:
  "mapWithConcurrency [''r0'', ''r1''] 0 rev [] = Resolved [None, None] \<and>
   Resolved [None, None] \<noteq> Resolved (map Some (map rev [''r0'', ''r1'']))"
  by (simp add: mapWithConcurrency_def)

section \<open>Properties of the cache path\<close>

lemma of_char_bound: "(of_char c :: nat) < 256"
proof -
  have "(of_char c :: nat) mod 256 = of_char c" by (rule of_char_mod_256)
  moreover have "(of_char c :: nat) mod 256 < 256" by simp
  ultimately show ?thesis by simp
qed

lemma padding_simps:
  "padding [] = []" "padding [a] = ''==''" "padding [a, b] = ''=''"
  "padding (a # b # c # rest) = padding rest"
  by (simp_all add: padding_def numeral_2_eq_2)

lemma base64_sextets: "base64 u = map b64 (sextets u) @ padding u"
  by (induction u rule: base64.induct) (simp_all add: padding_simps Let_def)

lemma sextet_bounds:
  fixes x y z :: nat
  assumes "x < 256" "y < 256" "z < 256"
  shows "x div 4 < 64" "(x mod 4) * 16 < 64" "(x mod 4) * 16 + y div 16 < 64"
    "(y mod 16) * 4 < 64" "(y mod 16) * 4 + z div 64 < 64" "z mod 64 < 64"
  using assms by simp_all

lemma sextets_bound: "s \<in> set (sextets u) \<Longrightarrow> s < 64"
proof (induction u arbitrary: s rule: sextets.induct)
  case 1
  then show ?case by simp
next
  case (2 a)
  note b = sextet_bounds [OF of_char_bound [of a] of_char_bound [of a] of_char_bound [of a]]
  from 2 b show ?case by (auto simp: Let_def)
next
  case (3 a b)
  note b = sextet_bounds [OF of_char_bound [of a] of_char_bound [of b] of_char_bound [of b]]
  from 3 b show ?case by (auto simp: Let_def)
next
  case (4 a b c rest)
  note b1 = sextet_bounds [OF of_char_bound [of a] of_char_bound [of b] of_char_bound [of c]]
  from 4 b1 show ?case by (auto simp: Let_def)
qed

lemma base64_alphabet_distinct: "distinct base64_alphabet"
  by (simp add: base64_alphabet_def)

lemma base64_alphabet_length: "length base64_alphabet = 64"
  by (simp add: base64_alphabet_def)

lemma b64_inj: "i < 64 \<Longrightarrow> j < 64 \<Longrightarrow> b64 i = b64 j \<Longrightarrow> i = j"
  unfolding b64_def
  using base64_alphabet_distinct base64_alphabet_length
  by (simp add: nth_eq_iff_index_eq)

lemma map_b64_inj:
  "\<forall>s \<in> set xs. s < 64 \<Longrightarrow> \<forall>s \<in> set ys. s < 64 \<Longrightarrow> map b64 xs = map b64 ys \<Longrightarrow> xs = ys"
proof (induction xs arbitrary: ys)
  case Nil
  then show ?case by simp
next
  case (Cons x xs)
  then obtain y ys' where ys: "ys = y # ys'" by (cases ys) auto
  with Cons.prems have "b64 x = b64 y" "x < 64" "y < 64" "map b64 xs = map b64 ys'"
    by simp_all
  then have "x = y" by (simp add: b64_inj)
  moreover from Cons.IH [of ys'] Cons.prems ys have "xs = ys'" by simp
  ultimately show ?case using ys by simp
qed

lemma b64_alnum: "s < 62 \<Longrightarrow> isAlnum (b64 s)"
proof -
  have all: "list_all isAlnum (take 62 base64_alphabet)"
    by (simp add: base64_alphabet_def isAlnum_def)
  assume "s < 62"
  then have "take 62 base64_alphabet ! s = b64 s" by (simp add: b64_def)
  moreover from \<open>s < 62\<close> have "s < length (take 62 base64_alphabet)"
    by (simp add: base64_alphabet_length)
  ultimately show ?thesis using all by (metis list_all_length)
qed

lemma b64_62_63: "b64 62 = CHR ''+''" "b64 63 = CHR ''/''"
  by (simp_all add: b64_def base64_alphabet_def)

lemma plain_sextets:
  assumes "plain_base64 u" and s: "s \<in> set (sextets u)"
  shows "s < 62"
proof -
  from s have lt: "s < 64" by (rule sextets_bound)
  from s have "b64 s \<in> set (base64 u)" by (simp add: base64_sextets)
  with assms(1) have "b64 s \<noteq> CHR ''+''" "b64 s \<noteq> CHR ''/''"
    by (auto simp: plain_base64_def)
  then have "s \<noteq> 62" "s \<noteq> 63" using b64_62_63 by auto
  with lt show ?thesis by simp
qed

lemma dirName_plain:
  assumes "plain_base64 u"
  shows "filter isAlnum (base64 u) = map b64 (sextets u)"
proof -
  have "filter isAlnum (padding u) = []"
    by (simp add: padding_def isAlnum_def)
  moreover have "filter isAlnum (map b64 (sextets u)) = map b64 (sextets u)"
    using plain_sextets [OF assms] by (simp add: filter_id_conv b64_alnum)
  ultimately show ?thesis by (simp add: base64_sextets)
qed

lemma split_mul_add:
  fixes a b a' b' k :: nat
  assumes "b < k" "b' < k" "a * k + b = a' * k + b'"
  shows "a = a' \<and> b = b'"
proof -
  from assms(1) have "(a * k + b) div k = a" "(a * k + b) mod k = b" by simp_all
  moreover from assms(2) have "(a' * k + b') div k = a'" "(a' * k + b') mod k = b'" by simp_all
  ultimately show ?thesis using assms(3) by metis
qed

lemma div_mod_eq:
  fixes x x' k :: nat
  assumes "x div k = x' div k" "x mod k = x' mod k"
  shows "x = x'"
  using assms by (metis div_mult_mod_eq)

text \<open>One, two and three bytes are determined by their six-bit groups.\<close>

lemma bytes_from_sextets_1:
  fixes x x' :: nat
  assumes "x div 4 = x' div 4" "(x mod 4) * 16 = (x' mod 4) * 16"
  shows "x = x'"
proof -
  from assms(2) have "x mod 4 = x' mod 4" by simp
  with assms(1) show ?thesis by (rule div_mod_eq)
qed

lemma bytes_from_sextets_2:
  fixes x x' y y' :: nat
  assumes "y < 256" "y' < 256" "x div 4 = x' div 4"
    "(x mod 4) * 16 + y div 16 = (x' mod 4) * 16 + y' div 16"
    "(y mod 16) * 4 = (y' mod 16) * 4"
  shows "x = x' \<and> y = y'"
proof -
  from assms(1,2) have "y div 16 < 16" "y' div 16 < 16" by simp_all
  from split_mul_add [OF this assms(4)]
  have a: "x mod 4 = x' mod 4" "y div 16 = y' div 16" by simp_all
  have c: "y mod 16 = y' mod 16" using assms(5) by simp
  have "x = x'" using assms(3) a(1) by (rule div_mod_eq)
  moreover have "y = y'" using a(2) c by (rule div_mod_eq)
  ultimately show ?thesis by blast
qed

lemma bytes_from_sextets_3:
  fixes x x' y y' z z' :: nat
  assumes "y < 256" "y' < 256" "z < 256" "z' < 256" "x div 4 = x' div 4"
    "(x mod 4) * 16 + y div 16 = (x' mod 4) * 16 + y' div 16"
    "(y mod 16) * 4 + z div 64 = (y' mod 16) * 4 + z' div 64"
    "z mod 64 = z' mod 64"
  shows "x = x' \<and> y = y' \<and> z = z'"
proof -
  from assms(1,2) have "y div 16 < 16" "y' div 16 < 16" by simp_all
  from split_mul_add [OF this assms(6)]
  have a: "x mod 4 = x' mod 4" "y div 16 = y' div 16" by simp_all
  from assms(3,4) have "z div 64 < 4" "z' div 64 < 4" by simp_all
  from split_mul_add [OF this assms(7)]
  have b: "y mod 16 = y' mod 16" "z div 64 = z' div 64" by simp_all
  have "x = x'" using assms(5) a(1) by (rule div_mod_eq)
  moreover have "y = y'" using a(2) b(1) by (rule div_mod_eq)
  moreover have "z = z'" using b(2) assms(8) by (rule div_mod_eq)
  ultimately show ?thesis by blast
qed

lemmas sextets_unfold = sextets.simps Let_def append.simps list.inject list.distinct
  simp_thms

lemma sextets_inj: "sextets u = sextets v \<Longrightarrow> u = v"
proof (induction u arbitrary: v rule: sextets.induct)
  case 1
  then show ?case by (cases v rule: sextets.cases) (simp_all only: sextets_unfold)
next
  case (2 a)
  show ?case
  proof (cases v rule: sextets.cases)
    case 1
    with "2.prems" show ?thesis by (simp only: sextets_unfold)
  next
    case (2 a')
    from "2.prems" have "(of_char a :: nat) div 4 = of_char a' div 4"
      "(of_char a :: nat) mod 4 * 16 = of_char a' mod 4 * 16"
      unfolding 2 by (simp_all only: sextets_unfold)
    then have "(of_char a :: nat) = of_char a'" by (rule bytes_from_sextets_1)
    then show ?thesis unfolding 2 by (simp only: of_char_eq_iff)
  next
    case (3 a' b')
    with "2.prems" show ?thesis by (simp only: sextets_unfold)
  next
    case (4 a' b' c' rest')
    with "2.prems" show ?thesis by (simp only: sextets_unfold)
  qed
next
  case (3 a b)
  show ?case
  proof (cases v rule: sextets.cases)
    case 1
    with "3.prems" show ?thesis by (simp only: sextets_unfold)
  next
    case (2 a')
    with "3.prems" show ?thesis by (simp only: sextets_unfold)
  next
    case (3 a' b')
    from "3.prems" have "(of_char a :: nat) div 4 = of_char a' div 4"
      "(of_char a :: nat) mod 4 * 16 + of_char b div 16 = of_char a' mod 4 * 16 + of_char b' div 16"
      "(of_char b :: nat) mod 16 * 4 = of_char b' mod 16 * 4"
      unfolding 3 by (simp_all only: sextets_unfold)
    with bytes_from_sextets_2 [OF nat_of_char_less_256 [of b] nat_of_char_less_256 [of b'],
        of "of_char a" "of_char a'"]
    have "(of_char a :: nat) = of_char a' \<and> (of_char b :: nat) = of_char b'" by blast
    then show ?thesis unfolding 3 by (simp only: of_char_eq_iff)
  next
    case (4 a' b' c' rest')
    with "3.prems" show ?thesis by (simp only: sextets_unfold)
  qed
next
  case (4 a b c rest)
  show ?case
  proof (cases v rule: sextets.cases)
    case 1
    with "4.prems" show ?thesis by (simp only: sextets_unfold)
  next
    case (2 a')
    with "4.prems" show ?thesis by (simp only: sextets_unfold)
  next
    case (3 a' b')
    with "4.prems" show ?thesis by (simp only: sextets_unfold)
  next
    case v: (4 a' b' c' rest')
    from "4.prems" have "(of_char a :: nat) div 4 = of_char a' div 4"
      "(of_char a :: nat) mod 4 * 16 + of_char b div 16 = of_char a' mod 4 * 16 + of_char b' div 16"
      "(of_char b :: nat) mod 16 * 4 + of_char c div 64 = of_char b' mod 16 * 4 + of_char c' div 64"
      "(of_char c :: nat) mod 64 = of_char c' mod 64"
      and tl: "sextets rest = sextets rest'"
      unfolding v by (simp_all only: sextets_unfold)
    with bytes_from_sextets_3 [OF nat_of_char_less_256 [of b] nat_of_char_less_256 [of b']
        nat_of_char_less_256 [of c] nat_of_char_less_256 [of c'], of "of_char a" "of_char a'"]
    have "(of_char a :: nat) = of_char a' \<and> (of_char b :: nat) = of_char b' \<and>
       (of_char c :: nat) = of_char c'" by blast
    moreover from tl have "rest = rest'" by (rule "4.IH" [OF refl refl refl])
    ultimately show ?thesis unfolding v by (simp only: of_char_eq_iff)
  qed
qed

lemma plain_dirName_inj:
  assumes "plain_base64 u" "plain_base64 v"
    and eq: "filter isAlnum (base64 u) = filter isAlnum (base64 v)"
  shows "u = v"
proof -
  from eq assms(1,2) have "map b64 (sextets u) = map b64 (sextets v)"
    by (simp add: dirName_plain)
  moreover have "\<forall>s \<in> set (sextets u). s < 64" "\<forall>s \<in> set (sextets v). s < 64"
    by (simp_all add: sextets_bound)
  ultimately have "sextets u = sextets v" by (metis map_b64_inj)
  then show ?thesis by (rule sextets_inj)
qed

lemma CACHE_DIR_nonempty: "CACHE_DIR tmpdir \<noteq> []"
  by (cases "tmpdir = []") (simp_all add: CACHE_DIR_def path_join_def)

lemma path_join_pair:
  "c \<noteq> [] \<Longrightarrow> path_join [c, d] = (if d = [] then c else c @ ''/'' @ d)"
  by (simp add: path_join_def)

lemma path_join_pair_inj:
  assumes "c \<noteq> []" "path_join [c, d1] = path_join [c, d2]"
  shows "d1 = d2"
proof (cases "d1 = []")
  case True
  with assms show ?thesis by (cases "d2 = []") (simp_all add: path_join_pair)
next
  case False
  with assms show ?thesis by (cases "d2 = []") (simp_all add: path_join_pair)
qed

lemma sextets_nonempty: "u \<noteq> [] \<Longrightarrow> sextets u \<noteq> []"
  by (cases u rule: sextets.cases) (simp_all add: Let_def)

text \<open>
  Among the URLs whose base64 text holds neither \<^verbatim>\<open>+\<close> nor \<^verbatim>\<open>/\<close>, equal paths
  mean equal byte strings, and a non-empty such URL gets a directory name that is
  non-empty and consists of letters and digits. Such a URL can still share its
  directory with a URL outside this set.
\<close>

lemma plain_urls_distinct_paths:
  "getRepoCachePath tmpdir u = path_join [CACHE_DIR tmpdir, filter isAlnum (base64 u)] \<and>
   (plain_base64 u \<and> plain_base64 v \<and>
    getRepoCachePath tmpdir u = getRepoCachePath tmpdir v \<longrightarrow> u = v) \<and>
   (plain_base64 u \<and> u \<noteq> [] \<longrightarrow>
      (\<exists>dirName. dirName \<noteq> [] \<and> list_all isAlnum dirName \<and>
         getRepoCachePath tmpdir u = CACHE_DIR tmpdir @ ''/'' @ dirName))"
proof (intro conjI impI)
  show "getRepoCachePath tmpdir u = path_join [CACHE_DIR tmpdir, filter isAlnum (base64 u)]"
    by (simp add: getRepoCachePath_def)
next
  assume h: "plain_base64 u \<and> plain_base64 v \<and>
    getRepoCachePath tmpdir u = getRepoCachePath tmpdir v"
  then have "path_join [CACHE_DIR tmpdir, filter isAlnum (base64 u)] =
      path_join [CACHE_DIR tmpdir, filter isAlnum (base64 v)]"
    by (simp add: getRepoCachePath_def)
  with CACHE_DIR_nonempty have "filter isAlnum (base64 u) = filter isAlnum (base64 v)"
    by (rule path_join_pair_inj)
  with h show "u = v" by (simp add: plain_dirName_inj)
next
  assume h: "plain_base64 u \<and> u \<noteq> []"
  let ?d = "map b64 (sextets u)"
  from h have d: "filter isAlnum (base64 u) = ?d" by (simp add: dirName_plain)
  from h have ne: "?d \<noteq> []" by (simp add: sextets_nonempty)
  from h have al: "list_all isAlnum ?d"
    by (auto simp: list_all_iff intro: b64_alnum plain_sextets)
  from ne have "getRepoCachePath tmpdir u = CACHE_DIR tmpdir @ ''/'' @ ?d"
    by (simp add: getRepoCachePath_def d path_join_pair CACHE_DIR_nonempty)
  with ne al show "\<exists>dirName. dirName \<noteq> [] \<and> list_all isAlnum dirName \<and>
         getRepoCachePath tmpdir u = CACHE_DIR tmpdir @ ''/'' @ dirName"
    by blast
qed

text \<open>
  A URL of \<open>3 n + 2\<close> bytes and the same URL followed by a question mark get the same
  directory: the last base64 character of the longer one is \<^verbatim>\<open>/\<close>, the padding of
  the shorter one is \<^verbatim>\<open>=\<close>, and both are removed.
\<close>

lemma removed_characters: "\<not> isAlnum (CHR ''/'')" "\<not> isAlnum (CHR ''='')"
  by (simp_all add: isAlnum_def)

lemma question_mark_dirName:
  "length u mod 3 = 2 \<Longrightarrow> filter isAlnum (base64 (u @ ''?'')) = filter isAlnum (base64 u)"
proof (induction u rule: base64.induct)
  case 1
  then show ?case by simp
next
  case (2 a)
  then show ?case by simp
next
  case (3 a b)
  show ?case by (simp add: Let_def b64_62_63 removed_characters)
next
  case (4 a b c rest)
  from "4.prems" have "length rest mod 3 = 2" by simp
  then have "filter isAlnum (base64 (rest @ ''?'')) = filter isAlnum (base64 rest)"
    by (rule "4.IH" [OF refl refl refl])
  then show ?case by (simp add: Let_def)
qed

lemma question_mark_collision:
  "length u mod 3 = 2 \<Longrightarrow> getRepoCachePath tmpdir (u @ ''?'') = getRepoCachePath tmpdir u"
  by (simp add: getRepoCachePath_def question_mark_dirName)

text \<open>
  C7. The cache path is a function of the URL, but not an injective one: the two
  distinct URLs \<^verbatim>\<open>https://github.com/ab/c\<close> and \<^verbatim>\<open>https://github.com/ab/c?\<close> get the
  same subdirectory of the cache root.
\<close>

theorem repo_cache_path_collision:
  "''https://github.com/ab/c'' \<noteq> ''https://github.com/ab/c?'' \<and>
   getRepoCachePath ''/tmp'' ''https://github.com/ab/c'' =
     getRepoCachePath ''/tmp'' ''https://github.com/ab/c?'' \<and>
   getRepoCachePath ''/tmp'' ''https://github.com/ab/c?'' =
     ''/tmp/agentskills-git-cache/aHR0cHM6Ly9naXRodWIuY29tL2FiL2M''"
  by (simp add: getRepoCachePath_def b64_def base64_alphabet_def isAlnum_def path_join_def
      CACHE_DIR_def)

end
